theory Spec2Isabelle
  imports Complex_Main
begin

section \<open>JavaScript numbers\<close>

text \<open>
  A JavaScript number is an IEEE 754 binary64 value. It is modelled as the real number a
  finite double stands for, one of the two infinities, or NaN. An arithmetic operation
  on finite values takes the exact real result and rounds it to the nearest double, so
  that a result too large becomes an infinity and one too small becomes zero; the special
  values follow the ECMAScript rules. There is one zero, which behaves as \<open>+0\<close>: the
  two zeros of a double compare equal, and no divisor in this program can be a negative
  zero (each is a positive constant, the logarithm of \<open>0.5\<close>, a value that has passed
  a test \<open>> 0\<close>, or a product of two such values).
\<close>

datatype jsnum = NaN | NInf | Fin real | PInf

text \<open>The relational operators \<open><\<close>, \<open><=\<close> and \<open>>\<close>: false as soon as an operand is NaN.\<close>

fun js_lt :: "jsnum \<Rightarrow> jsnum \<Rightarrow> bool" where
  "js_lt NaN _ = False"
| "js_lt _ NaN = False"
| "js_lt NInf NInf = False"
| "js_lt NInf _ = True"
| "js_lt _ NInf = False"
| "js_lt PInf _ = False"
| "js_lt (Fin x) PInf = True"
| "js_lt (Fin x) (Fin y) = (x < y)"

fun js_le :: "jsnum \<Rightarrow> jsnum \<Rightarrow> bool" where
  "js_le NaN _ = False"
| "js_le _ NaN = False"
| "js_le NInf _ = True"
| "js_le _ NInf = False"
| "js_le _ PInf = True"
| "js_le PInf _ = False"
| "js_le (Fin x) (Fin y) = (x \<le> y)"

definition js_gt :: "jsnum \<Rightarrow> jsnum \<Rightarrow> bool" where
  "js_gt a b = js_lt b a"

fun js_neg :: "jsnum \<Rightarrow> jsnum" where
  "js_neg NaN = NaN"
| "js_neg NInf = PInf"
| "js_neg PInf = NInf"
| "js_neg (Fin x) = Fin (- x)"

subsection \<open>Rounding to the nearest double\<close>

text \<open>
  A real \<open>x\<close> other than zero lies in one binade, \<open>2^e \<le> |x| < 2^(e+1)\<close>, and the
  doubles around it are the integer multiples of \<open>2^(e-52)\<close>; the exponent \<open>e\<close> is not
  taken below \<open>-1022\<close>, which leaves the spacing \<open>2^(-1074)\<close> of the subnormal numbers
  near zero. \<open>round_even\<close> is the nearest integer, the even one on a tie; \<open>rv x\<close> is
  the multiple of the spacing nearest to \<open>x\<close>; and \<open>fl x\<close> is the double \<open>x\<close> rounds
  to: \<open>rv x\<close>, or an infinity of the sign of \<open>x\<close> once \<open>rv x\<close> reaches \<open>2^1024\<close>.
\<close>

definition round_even :: "real \<Rightarrow> int" where
  "round_even y =
     (let n = \<lfloor>y\<rfloor>; r = y - of_int n
      in if r < 1 / 2 then n else if 1 / 2 < r then n + 1 else if even n then n else n + 1)"

definition binade :: "real \<Rightarrow> int" where
  "binade x = max \<lfloor>log 2 \<bar>x\<bar>\<rfloor> (- 1022)"

definition rv :: "real \<Rightarrow> real" where
  "rv x = of_int (round_even (x / 2 powr of_int (binade x - 52))) * 2 powr of_int (binade x - 52)"

definition huge :: real where
  "huge = 2 powr 1024"

definition fl :: "real \<Rightarrow> jsnum" where
  "fl x =
     (if x = 0 then Fin 0
      else if huge \<le> \<bar>rv x\<bar> then (if 0 < x then PInf else NInf)
      else Fin (rv x))"

subsection \<open>Arithmetic\<close>

fun js_add :: "jsnum \<Rightarrow> jsnum \<Rightarrow> jsnum" where
  "js_add NaN _ = NaN"
| "js_add _ NaN = NaN"
| "js_add PInf NInf = NaN"
| "js_add NInf PInf = NaN"
| "js_add PInf _ = PInf"
| "js_add _ PInf = PInf"
| "js_add NInf _ = NInf"
| "js_add _ NInf = NInf"
| "js_add (Fin x) (Fin y) = fl (x + y)"

definition js_sub :: "jsnum \<Rightarrow> jsnum \<Rightarrow> jsnum" where
  "js_sub a b = js_add a (js_neg b)"

text \<open>The sign of a value that is not NaN, as \<open>-1\<close>, \<open>0\<close> or \<open>1\<close>.\<close>

fun js_sign :: "jsnum \<Rightarrow> int" where
  "js_sign NaN = 0"
| "js_sign NInf = - 1"
| "js_sign PInf = 1"
| "js_sign (Fin x) = (if x < 0 then - 1 else if x = 0 then 0 else 1)"

definition inf_of_sign :: "int \<Rightarrow> jsnum" where
  "inf_of_sign s = (if s < 0 then NInf else if s = 0 then NaN else PInf)"

fun js_mul :: "jsnum \<Rightarrow> jsnum \<Rightarrow> jsnum" where
  "js_mul NaN _ = NaN"
| "js_mul _ NaN = NaN"
| "js_mul (Fin x) (Fin y) = fl (x * y)"
| "js_mul a b = inf_of_sign (js_sign a * js_sign b)"

text \<open>
  Division: an infinity divided by an infinity is NaN, a finite value divided by an
  infinity is zero, an infinity divided by a finite value keeps its magnitude (the zero
  divisor counting as positive), and a finite value divided by zero is an infinity of
  its sign, or NaN for \<open>0 / 0\<close>.
\<close>

fun js_div :: "jsnum \<Rightarrow> jsnum \<Rightarrow> jsnum" where
  "js_div NaN _ = NaN"
| "js_div _ NaN = NaN"
| "js_div (Fin x) (Fin y) = (if y = 0 then inf_of_sign (js_sign (Fin x)) else fl (x / y))"
| "js_div (Fin x) _ = Fin 0"
| "js_div a (Fin y) = inf_of_sign (js_sign a * (if y < 0 then - 1 else 1))"
| "js_div _ _ = NaN"

text \<open>\<open>Math.max\<close> and \<open>Math.min\<close> of two arguments: NaN if either is NaN.\<close>

fun math_max :: "jsnum \<Rightarrow> jsnum \<Rightarrow> jsnum" where
  "math_max NaN _ = NaN"
| "math_max _ NaN = NaN"
| "math_max a b = (if js_lt a b then b else a)"

fun math_min :: "jsnum \<Rightarrow> jsnum \<Rightarrow> jsnum" where
  "math_min NaN _ = NaN"
| "math_min _ NaN = NaN"
| "math_min a b = (if js_lt b a then b else a)"

text \<open>
  \<open>Math.log\<close> and \<open>Math.sqrt\<close>. ECMAScript leaves the accuracy of \<open>Math.log\<close> and
  of \<open>Math.pow\<close> to the implementation; here each returns the double nearest to the
  exact result, as \<open>Math.sqrt\<close> does.
\<close>

fun math_log :: "jsnum \<Rightarrow> jsnum" where
  "math_log NaN = NaN"
| "math_log NInf = NaN"
| "math_log PInf = PInf"
| "math_log (Fin x) = (if x < 0 then NaN else if x = 0 then NInf else fl (ln x))"

fun math_sqrt :: "jsnum \<Rightarrow> jsnum" where
  "math_sqrt NaN = NaN"
| "math_sqrt NInf = NaN"
| "math_sqrt PInf = PInf"
| "math_sqrt (Fin x) = (if x < 0 then NaN else fl (sqrt x))"

text \<open>
  \<open>Math.pow(base, exponent)\<close>, by the cases of ECMAScript's \<open>Number::exponentiate\<close>:
  a NaN exponent, a zero exponent, a NaN base, an infinite base, a zero base, an
  infinite exponent, a negative base with a fractional exponent, and the real power.
\<close>

definition is_odd_integer :: "real \<Rightarrow> bool" where
  "is_odd_integer e = (e = of_int \<lfloor>e\<rfloor> \<and> odd \<lfloor>e\<rfloor>)"

fun math_pow :: "jsnum \<Rightarrow> jsnum \<Rightarrow> jsnum" where
  "math_pow _ NaN = NaN"
| "math_pow b (Fin e) =
     (if e = 0 then Fin 1
      else case b of
        NaN \<Rightarrow> NaN
      | PInf \<Rightarrow> (if 0 < e then PInf else Fin 0)
      | NInf \<Rightarrow> (if 0 < e then (if is_odd_integer e then NInf else PInf) else Fin 0)
      | Fin x \<Rightarrow>
          (if x = 0 then (if 0 < e then Fin 0 else PInf)
           else if 0 < x then fl (x powr e)
           else if e \<noteq> of_int \<lfloor>e\<rfloor> then NaN
           else fl ((if odd \<lfloor>e\<rfloor> then - 1 else 1) * (\<bar>x\<bar> powr e))))"
| "math_pow b PInf =
     (case b of
        NaN \<Rightarrow> NaN
      | PInf \<Rightarrow> PInf
      | NInf \<Rightarrow> PInf
      | Fin x \<Rightarrow> (if 1 < \<bar>x\<bar> then PInf else if \<bar>x\<bar> = 1 then NaN else Fin 0))"
| "math_pow b NInf =
     (case b of
        NaN \<Rightarrow> NaN
      | PInf \<Rightarrow> Fin 0
      | NInf \<Rightarrow> Fin 0
      | Fin x \<Rightarrow> (if 1 < \<bar>x\<bar> then Fin 0 else if \<bar>x\<bar> = 1 then NaN else PInf))"

section \<open>The hit chance calculator (calculator.js)\<close>

text \<open>
  The decimal literals \<open>0.97\<close> and \<open>0.03\<close> of the source are no doubles; each
  stands for the double nearest to it.
\<close>

definition SIGNATURE_RESOLUTION :: jsnum where
  "SIGNATURE_RESOLUTION = Fin 40000"

definition calculateAngularVelocity :: "jsnum \<Rightarrow> jsnum \<Rightarrow> jsnum" where
  "calculateAngularVelocity transversal distance =
     (if js_le distance (Fin 0) then PInf else js_div transversal distance)"

definition calculateTrackingComponent :: "jsnum \<Rightarrow> jsnum \<Rightarrow> jsnum \<Rightarrow> jsnum" where
  "calculateTrackingComponent angularVelocity trackingSpeed signatureRadius =
     (if js_le trackingSpeed (Fin 0) \<or> js_le signatureRadius (Fin 0) then PInf
      else let ratio = js_div (js_mul angularVelocity SIGNATURE_RESOLUTION)
                              (js_mul trackingSpeed signatureRadius)
           in js_mul ratio ratio)"

definition calculateRangeComponent :: "jsnum \<Rightarrow> jsnum \<Rightarrow> jsnum \<Rightarrow> jsnum" where
  "calculateRangeComponent distance optimalRange falloff =
     (if js_le falloff (Fin 0) then (if js_gt distance optimalRange then PInf else Fin 0)
      else let excess = math_max (Fin 0) (js_sub distance optimalRange);
               ratio = js_div excess falloff
           in js_mul ratio ratio)"

record hit_params =
  transversal :: jsnum
  distance :: jsnum
  trackingSpeed :: jsnum
  signatureRadius :: jsnum
  optimalRange :: jsnum
  falloff :: jsnum

record hit_result =
  hitChance :: jsnum
  hitChancePercent :: jsnum
  angularVelocity :: jsnum
  angularVelocityMrad :: jsnum
  trackingComponent :: jsnum
  rangeComponent :: jsnum
  isInOptimal :: bool
  isInFalloff :: bool
  expectedDamageModifier :: jsnum

definition calculateHitChance :: "hit_params \<Rightarrow> hit_result" where
  "calculateHitChance p =
     (let av = calculateAngularVelocity (transversal p) (distance p);
          tc = calculateTrackingComponent av (trackingSpeed p) (signatureRadius p);
          rc = calculateRangeComponent (distance p) (optimalRange p) (falloff p);
          exponent = js_add tc rc;
          hc = math_pow (Fin (1 / 2)) exponent;
          edm = js_mul hc (js_add (js_mul (fl (97 / 100)) (Fin (1 / 2)))
                                  (js_mul (fl (3 / 100)) (Fin 3)))
      in \<lparr> hitChance = math_min (Fin 1) (math_max (Fin 0) hc),
           hitChancePercent = math_min (Fin 100) (math_max (Fin 0) (js_mul hc (Fin 100))),
           angularVelocity = av,
           angularVelocityMrad = js_mul av (Fin 1000),
           trackingComponent = tc,
           rangeComponent = rc,
           isInOptimal = js_le (distance p) (optimalRange p),
           isInFalloff = js_le (distance p) (js_add (optimalRange p) (falloff p)),
           expectedDamageModifier = edm \<rparr>)"

record inverse_params =
  targetHitChance :: jsnum
  inv_distance :: jsnum
  inv_trackingSpeed :: jsnum
  inv_signatureRadius :: jsnum
  inv_optimalRange :: jsnum
  inv_falloff :: jsnum

definition calculateMaxTransversal :: "inverse_params \<Rightarrow> jsnum" where
  "calculateMaxTransversal p =
     (if js_le (targetHitChance p) (Fin 0) \<or> js_gt (targetHitChance p) (Fin 1) then Fin 0
      else
        let rc = calculateRangeComponent (inv_distance p) (inv_optimalRange p) (inv_falloff p);
            totalExponent = js_div (math_log (targetHitChance p)) (math_log (Fin (1 / 2)));
            trackingExponent = js_sub totalExponent rc
        in if js_le trackingExponent (Fin 0) then PInf
           else
             let trackingRatio = math_sqrt trackingExponent;
                 av = js_div (js_mul (js_mul trackingRatio (inv_trackingSpeed p))
                                     (inv_signatureRadius p))
                             SIGNATURE_RESOLUTION
             in js_mul av (inv_distance p))"

section \<open>Strings and regular expressions\<close>

text \<open>
  A JavaScript string is a sequence of code units; here it is a \<open>string\<close>, each
  \<open>char\<close> standing for the code unit of the same value (0 to 255). The character
  classes follow ECMAScript on that range: \<open>\d\<close> is the ten ASCII digits, \<open>\w\<close> the
  ASCII letters, digits and underscore, \<open>\s\<close> the white space and line terminators (tab,
  line feed, vertical tab, form feed, carriage return, space, no-break space), and
  \<open>.\<close> everything but a line feed or a carriage return.
\<close>

definition is_digit :: "char \<Rightarrow> bool" where
  "is_digit x = (x \<in> set ''0123456789'')"

definition is_word :: "char \<Rightarrow> bool" where
  "is_word x =
     (x \<in> set ''abcdefghijklmnopqrstuvwxyzABCDEFGHIJKLMNOPQRSTUVWXYZ0123456789_'')"

definition is_space :: "char \<Rightarrow> bool" where
  "is_space x =
     (x \<in> set [CHR 0x09, CHR 0x0A, CHR 0x0B, CHR 0x0C, CHR 0x0D, CHR 0x20, CHR 0xA0])"

definition is_line_terminator :: "char \<Rightarrow> bool" where
  "is_line_terminator x = (x \<in> set [CHR 0x0A, CHR 0x0D])"

text \<open>
  \<open>Canonicalize\<close> of a pattern with the \<open>i\<close> flag maps a lower-case ASCII letter to its
  upper-case letter. A code unit above 127 never canonicalizes to an ASCII one, and every
  pattern character of the source is ASCII, so leaving those code units alone decides
  every comparison as ECMAScript does. \<open>toLowerCase\<close> is modelled on ASCII likewise.
\<close>

definition canonicalize :: "char \<Rightarrow> char" where
  "canonicalize x =
     (case map_of (zip ''abcdefghijklmnopqrstuvwxyz'' ''ABCDEFGHIJKLMNOPQRSTUVWXYZ'') x of
        Some u \<Rightarrow> u | None \<Rightarrow> x)"

definition toLowerCase :: "string \<Rightarrow> string" where
  "toLowerCase s =
     map (\<lambda>x. case map_of (zip ''ABCDEFGHIJKLMNOPQRSTUVWXYZ'' ''abcdefghijklmnopqrstuvwxyz'') x of
                 Some l \<Rightarrow> l | None \<Rightarrow> x) s"

text \<open>
  The patterns of the source, as syntax trees. A bracket class lists its members; an atom
  matches one code unit; the quantifiers \<open>*\<close>, \<open>+\<close> and the lazy \<open>*?\<close> apply to an atom,
  which is all the source's patterns need. \<open>Group n\<close> is the \<open>n\<close>-th capturing group.
\<close>

datatype cclass = Digit | Space | Word | Lit char

datatype atom = Ch char | Any | In "cclass list" | NotIn "cclass list"

datatype rx =
    Atom atom
  | Str string
  | Star atom
  | Plus atom
  | LazyStar atom
  | Cat "rx list"
  | Alt "rx list"
  | Group nat rx

fun char_eq :: "bool \<Rightarrow> char \<Rightarrow> char \<Rightarrow> bool" where
  "char_eq i c x = (if i then canonicalize x = canonicalize c else x = c)"

fun class_ok :: "bool \<Rightarrow> cclass \<Rightarrow> char \<Rightarrow> bool" where
  "class_ok i Digit x = is_digit x"
| "class_ok i Space x = is_space x"
| "class_ok i Word x = is_word x"
| "class_ok i (Lit c) x = char_eq i c x"

fun atom_ok :: "bool \<Rightarrow> atom \<Rightarrow> char \<Rightarrow> bool" where
  "atom_ok i (Ch c) x = char_eq i c x"
| "atom_ok i Any x = (\<not> is_line_terminator x)"
| "atom_ok i (In cs) x = list_ex (\<lambda>k. class_ok i k x) cs"
| "atom_ok i (NotIn cs) x = (\<not> list_ex (\<lambda>k. class_ok i k x) cs)"

text \<open>
  The backtracking matcher of ECMAScript, in continuation-passing style: \<open>m i r s c k\<close>
  matches \<open>r\<close> at the front of \<open>s\<close> with the captures \<open>c\<close> so far and hands the rest of
  the input and the captures to the continuation \<open>k\<close>; when \<open>k\<close> fails, the next
  alternative is tried, a greedy quantifier giving back one code unit at a time and a lazy
  one taking one more. \<open>i\<close> is the ignore-case flag.
\<close>

type_synonym captures = "nat \<Rightarrow> string option"

definition matched :: "string \<Rightarrow> string \<Rightarrow> string" where
  "matched s s' = take (length s - length s') s"

fun m :: "bool \<Rightarrow> rx \<Rightarrow> string \<Rightarrow> captures \<Rightarrow> (string \<Rightarrow> captures \<Rightarrow> captures option)
            \<Rightarrow> captures option" where
  "m i (Atom a) [] c k = None"
| "m i (Atom a) (x # xs) c k = (if atom_ok i a x then k xs c else None)"
| "m i (Str []) s c k = k s c"
| "m i (Str (y # ys)) [] c k = None"
| "m i (Str (y # ys)) (x # xs) c k = (if char_eq i y x then m i (Str ys) xs c k else None)"
| "m i (Star a) [] c k = k [] c"
| "m i (Star a) (x # xs) c k =
     (if atom_ok i a x
      then (case m i (Star a) xs c k of Some r \<Rightarrow> Some r | None \<Rightarrow> k (x # xs) c)
      else k (x # xs) c)"
| "m i (Plus a) [] c k = None"
| "m i (Plus a) (x # xs) c k = (if atom_ok i a x then m i (Star a) xs c k else None)"
| "m i (LazyStar a) [] c k = k [] c"
| "m i (LazyStar a) (x # xs) c k =
     (case k (x # xs) c of
        Some r \<Rightarrow> Some r
      | None \<Rightarrow> if atom_ok i a x then m i (LazyStar a) xs c k else None)"
| "m i (Cat []) s c k = k s c"
| "m i (Cat (r # rs)) s c k = m i r s c (\<lambda>s' c'. m i (Cat rs) s' c' k)"
| "m i (Alt []) s c k = None"
| "m i (Alt (r # rs)) s c k =
     (case m i r s c k of Some res \<Rightarrow> Some res | None \<Rightarrow> m i (Alt rs) s c k)"
| "m i (Group n r) s c k = m i r s c (\<lambda>s' c'. k s' (c'(n \<mapsto> matched s s')))"

text \<open>A match that starts at the front of the input; group 0 is the whole match.\<close>

definition match_at :: "bool \<Rightarrow> rx \<Rightarrow> string \<Rightarrow> captures option" where
  "match_at i r s = m i (Group 0 r) s (\<lambda>n. None) (\<lambda>s' c'. Some c')"

text \<open>The leftmost match: every start position in turn, the end of the input included.\<close>

fun search :: "bool \<Rightarrow> rx \<Rightarrow> string \<Rightarrow> captures option" where
  "search i r [] = match_at i r []"
| "search i r (x # xs) =
     (case match_at i r (x # xs) of Some c \<Rightarrow> Some c | None \<Rightarrow> search i r xs)"

record regex =
  pattern :: rx
  ngroups :: nat
  icase :: bool

text \<open>
  \<open>str.match(re)\<close> for a pattern without the \<open>g\<close> flag: null, or the array of the whole
  match and the groups, a group that took no part being undefined (\<open>None\<close>).
\<close>

definition js_match :: "regex \<Rightarrow> string \<Rightarrow> string option list option" where
  "js_match re s =
     map_option (\<lambda>c. map c [0..<Suc (ngroups re)]) (search (icase re) (pattern re) s)"

text \<open>Reading an array element: undefined beyond its end.\<close>

definition group :: "string option list \<Rightarrow> nat \<Rightarrow> string option" where
  "group g n = (if n < length g then g ! n else None)"

text \<open>
  The text of a group. The parser reads this only for groups that take part in every
  match of their pattern (\<open>groups_take_part\<close> below), so the empty string given for an
  undefined group is never used.
\<close>

definition text_of :: "string option \<Rightarrow> string" where
  "text_of g = (case g of Some s \<Rightarrow> s | None \<Rightarrow> [])"

text \<open>
  \<open>str.replace(re, '')\<close> for a pattern with the \<open>g\<close> flag: every leftmost match, found
  from the end of the one before, is removed. The counter is the number of code units of
  the current match still to drop.
\<close>

fun remove_matches :: "bool \<Rightarrow> rx \<Rightarrow> nat \<Rightarrow> string \<Rightarrow> string" where
  "remove_matches i r n [] = []"
| "remove_matches i r (Suc n) (x # xs) = remove_matches i r n xs"
| "remove_matches i r 0 (x # xs) =
     (case match_at i r (x # xs) of
        None \<Rightarrow> x # remove_matches i r 0 xs
      | Some c \<Rightarrow>
          (case length (text_of (c 0)) of
             0 \<Rightarrow> x # remove_matches i r 0 xs
           | Suc n \<Rightarrow> remove_matches i r n xs))"

definition trim :: "string \<Rightarrow> string" where
  "trim s = rev (dropWhile is_space (rev (dropWhile is_space s)))"

text \<open>
  \<open>parseInt(str)\<close> with no radix: leading white space, a sign, a \<open>0x\<close> prefix, then
  the longest run of digits of the radix; NaN when that run is empty, and otherwise the
  double nearest to the integer the digits denote.
\<close>

definition digit_value :: "char \<Rightarrow> nat option" where
  "digit_value x =
     map_of (zip ''0123456789abcdefABCDEF''
               [0, 1, 2, 3, 4, 5, 6, 7, 8, 9, 10, 11, 12, 13, 14, 15, 10, 11, 12, 13, 14, 15]) x"

definition is_radix_digit :: "nat \<Rightarrow> char \<Rightarrow> bool" where
  "is_radix_digit radix x = (case digit_value x of Some v \<Rightarrow> v < radix | None \<Rightarrow> False)"

definition digits_value :: "nat \<Rightarrow> string \<Rightarrow> nat" where
  "digits_value radix ds =
     foldl (\<lambda>acc x. acc * radix + (case digit_value x of Some v \<Rightarrow> v | None \<Rightarrow> 0)) 0 ds"

definition parseInt :: "string \<Rightarrow> jsnum" where
  "parseInt str =
     (let s = dropWhile is_space str;
          negative = (take 1 s = ''-'');
          s1 = (if take 1 s = ''-'' \<or> take 1 s = ''+'' then drop 1 s else s);
          hex = (take 2 s1 = ''0x'' \<or> take 2 s1 = ''0X'');
          radix = (if hex then 16 else 10);
          s2 = (if hex then drop 2 s1 else s1);
          ds = takeWhile (is_radix_digit radix) s2
      in if ds = [] then NaN
         else fl ((if negative then - 1 else 1) * real (digits_value radix ds)))"

section \<open>The combat log parser (logParser.js)\<close>

text \<open>
  The patterns of the source, each followed below by its syntax tree:

  \<^verbatim>\<open>TIMESTAMP_REGEX = /\[\s*(\d{4})\.(\d{2})\.(\d{2})\s+(\d{2}):(\d{2}):(\d{2})\s*\]/\<close>

  \<^verbatim>\<open>LOG_LINE_REGEX = /\[\s*[\d.:\s]+\]\s*\((\w+)\)\s*(.*)/\<close>

  \<^verbatim>\<open>DAMAGE_DEALT_REGEX = /<color=[^>]+><b>(\d+)<\/b>.*?<color=[^>]+><b>(\d+)<\/b>.*?to\s+<b><color=[^>]+>([^<]+)<\/color><\/b>/i\<close>

  \<^verbatim>\<open>DAMAGE_RECEIVED_REGEX = /<color=[^>]+><b>(\d+)<\/b>.*?from\s+<b><color=[^>]+>([^<]+)<\/color><\/b>/i\<close>

  \<^verbatim>\<open>MISS_REGEX = /misses\s+(?:you|<b><color=[^>]+>([^<]+)<\/color><\/b>)\s+completely/i\<close>

  \<^verbatim>\<open>WEAPON_REGEX = /-\s+<color=[^>]+><font[^>]*>([^<]+)<\/font>/i\<close>

  \<^verbatim>\<open>HIT_QUALITY_REGEX = /(wrecks|penetrates|hits|grazes|glances|smashes)/i\<close>

  and, in \<open>stripTags\<close>, \<^verbatim>\<open>/<[^>]+>/g\<close>. A counted digit group such as \<open>\d{2}\<close> is
  written out digit by digit.
\<close>

abbreviation d2 :: rx where
  "d2 \<equiv> Cat [Atom (In [Digit]), Atom (In [Digit])]"

definition TIMESTAMP_REGEX :: regex where
  "TIMESTAMP_REGEX =
     \<lparr> pattern = Cat [Str ''['', Star (In [Space]),
         Group 1 (Cat [d2, d2]), Str ''.'', Group 2 d2, Str ''.'', Group 3 d2,
         Plus (In [Space]),
         Group 4 d2, Str '':'', Group 5 d2, Str '':'', Group 6 d2,
         Star (In [Space]), Str '']''],
       ngroups = 6, icase = False \<rparr>"

definition LOG_LINE_REGEX :: regex where
  "LOG_LINE_REGEX =
     \<lparr> pattern = Cat [Str ''['', Star (In [Space]),
         Plus (In [Digit, Lit CHR ''.'', Lit CHR '':'', Space]), Str '']'',
         Star (In [Space]), Str ''('', Group 1 (Plus (In [Word])), Str '')'',
         Star (In [Space]), Group 2 (Star Any)],
       ngroups = 2, icase = False \<rparr>"

definition DAMAGE_DEALT_REGEX :: regex where
  "DAMAGE_DEALT_REGEX =
     \<lparr> pattern = Cat [Str ''<color='', Plus (NotIn [Lit CHR ''>'']), Str ''><b>'',
         Group 1 (Plus (In [Digit])), Str ''</b>'', LazyStar Any,
         Str ''<color='', Plus (NotIn [Lit CHR ''>'']), Str ''><b>'',
         Group 2 (Plus (In [Digit])), Str ''</b>'', LazyStar Any,
         Str ''to'', Plus (In [Space]),
         Str ''<b><color='', Plus (NotIn [Lit CHR ''>'']), Str ''>'',
         Group 3 (Plus (NotIn [Lit CHR ''<''])), Str ''</color></b>''],
       ngroups = 3, icase = True \<rparr>"

definition DAMAGE_RECEIVED_REGEX :: regex where
  "DAMAGE_RECEIVED_REGEX =
     \<lparr> pattern = Cat [Str ''<color='', Plus (NotIn [Lit CHR ''>'']), Str ''><b>'',
         Group 1 (Plus (In [Digit])), Str ''</b>'', LazyStar Any,
         Str ''from'', Plus (In [Space]),
         Str ''<b><color='', Plus (NotIn [Lit CHR ''>'']), Str ''>'',
         Group 2 (Plus (NotIn [Lit CHR ''<''])), Str ''</color></b>''],
       ngroups = 2, icase = True \<rparr>"

definition MISS_REGEX :: regex where
  "MISS_REGEX =
     \<lparr> pattern = Cat [Str ''misses'', Plus (In [Space]),
         Alt [Str ''you'',
              Cat [Str ''<b><color='', Plus (NotIn [Lit CHR ''>'']), Str ''>'',
                   Group 1 (Plus (NotIn [Lit CHR ''<''])), Str ''</color></b>'']],
         Plus (In [Space]), Str ''completely''],
       ngroups = 1, icase = True \<rparr>"

definition WEAPON_REGEX :: regex where
  "WEAPON_REGEX =
     \<lparr> pattern = Cat [Str ''-'', Plus (In [Space]),
         Str ''<color='', Plus (NotIn [Lit CHR ''>'']), Str ''><font'',
         Star (NotIn [Lit CHR ''>'']), Str ''>'',
         Group 1 (Plus (NotIn [Lit CHR ''<''])), Str ''</font>''],
       ngroups = 1, icase = True \<rparr>"

definition HIT_QUALITY_REGEX :: regex where
  "HIT_QUALITY_REGEX =
     \<lparr> pattern = Group 1 (Alt [Str ''wrecks'', Str ''penetrates'', Str ''hits'',
                                Str ''grazes'', Str ''glances'', Str ''smashes'']),
       ngroups = 1, icase = True \<rparr>"

text \<open>
  \<open>parseTimestamp\<close>. A \<open>Date\<close> is modelled by its time value, a number of
  milliseconds. The constructor \<open>new Date(year, monthIndex, day, hours, minutes,
  seconds)\<close> reads its arguments in the local time zone of the host, so it is a
  parameter, \<open>mkDate\<close>, of the parser.
\<close>

type_synonym date_ctor = "jsnum \<Rightarrow> jsnum \<Rightarrow> jsnum \<Rightarrow> jsnum \<Rightarrow> jsnum \<Rightarrow> jsnum \<Rightarrow> jsnum"

definition parseTimestamp :: "date_ctor \<Rightarrow> string \<Rightarrow> jsnum option" where
  "parseTimestamp mkDate line =
     (case js_match TIMESTAMP_REGEX line of
        None \<Rightarrow> None
      | Some g \<Rightarrow>
          Some (mkDate (parseInt (text_of (group g 1)))
                       (js_sub (parseInt (text_of (group g 2))) (Fin 1))
                       (parseInt (text_of (group g 3)))
                       (parseInt (text_of (group g 4)))
                       (parseInt (text_of (group g 5)))
                       (parseInt (text_of (group g 6)))))"

definition stripTags :: "string \<Rightarrow> string" where
  "stripTags str =
     trim (remove_matches False (Cat [Str ''<'', Plus (NotIn [Lit CHR ''>'']), Str ''>'']) 0 str)"

text \<open>
  A combat event. The fields that an object may lack are options; \<open>type\<close> is the
  string the source stores.
\<close>

record event =
  timestamp :: "jsnum option"
  raw :: string
  type :: string
  damage :: "jsnum option"
  target :: "string option"
  source :: "string option"
  weapon :: "string option"
  hitQuality :: "string option"

text \<open>The three classification checks and the two extractions, each as the source's \<open>if\<close>.\<close>

definition check_damage_dealt :: "string \<Rightarrow> event \<Rightarrow> event" where
  "check_damage_dealt content ev =
     (case js_match DAMAGE_DEALT_REGEX content of
        None \<Rightarrow> ev
      | Some damageDealt \<Rightarrow>
          ev \<lparr> type := ''damage_dealt'',
               damage := Some (parseInt (text_of (group damageDealt 1))),
               target := Some (stripTags (text_of (group damageDealt 3))) \<rparr>)"

definition check_damage_received :: "string \<Rightarrow> event \<Rightarrow> event" where
  "check_damage_received content ev =
     (case js_match DAMAGE_RECEIVED_REGEX content of
        None \<Rightarrow> ev
      | Some damageReceived \<Rightarrow>
          ev \<lparr> type := ''damage_received'',
               damage := Some (parseInt (text_of (group damageReceived 1))),
               source := Some (stripTags (text_of (group damageReceived 2))) \<rparr>)"

definition check_miss :: "string \<Rightarrow> event \<Rightarrow> event" where
  "check_miss content ev =
     (case js_match MISS_REGEX content of
        None \<Rightarrow> ev
      | Some miss \<Rightarrow>
          ev \<lparr> type := ''miss'',
               target := Some (case group miss 1 of
                                 None \<Rightarrow> ''you''
                               | Some name \<Rightarrow> if name = [] then ''you'' else stripTags name) \<rparr>)"

definition extract_weapon :: "string \<Rightarrow> event \<Rightarrow> event" where
  "extract_weapon content ev =
     (case js_match WEAPON_REGEX content of
        None \<Rightarrow> ev
      | Some weaponMatch \<Rightarrow> ev \<lparr> weapon := Some (stripTags (text_of (group weaponMatch 1))) \<rparr>)"

definition extract_hit_quality :: "string \<Rightarrow> event \<Rightarrow> event" where
  "extract_hit_quality content ev =
     (case js_match HIT_QUALITY_REGEX content of
        None \<Rightarrow> ev
      | Some hq \<Rightarrow> ev \<lparr> hitQuality := Some (toLowerCase (text_of (group hq 1))) \<rparr>)"

definition parseCombatLine :: "date_ctor \<Rightarrow> string \<Rightarrow> event option" where
  "parseCombatLine mkDate line =
     (let ts = parseTimestamp mkDate line in
      case js_match LOG_LINE_REGEX line of
        None \<Rightarrow> None
      | Some lineMatch \<Rightarrow>
          if group lineMatch 1 \<noteq> Some ''combat'' then None
          else
            let content = text_of (group lineMatch 2);
                ev0 = \<lparr> timestamp = ts, raw = line, type = ''unknown'', damage = None,
                        target = None, source = None, weapon = None, hitQuality = None \<rparr>;
                ev1 = check_damage_dealt content ev0;
                ev2 = check_damage_received content ev1;
                ev3 = check_miss content ev2;
                ev4 = extract_weapon content ev3;
                ev5 = extract_hit_quality content ev4
            in Some ev5)"

text \<open>\<open>content.split('\n')\<close>: always at least one line, the last one possibly empty.\<close>

fun split_acc :: "string \<Rightarrow> string \<Rightarrow> string list" where
  "split_acc cur [] = [rev cur]"
| "split_acc cur (x # xs) =
     (if x = CHR 0x0A then rev cur # split_acc [] xs else split_acc (x # cur) xs)"

definition split_lines :: "string \<Rightarrow> string list" where
  "split_lines content = split_acc [] content"

text \<open>The loop of \<open>parseLogContent\<close>: one step per line, pushing onto \<open>events\<close>.\<close>

definition push_line :: "date_ctor \<Rightarrow> event list \<Rightarrow> string \<Rightarrow> event list" where
  "push_line mkDate events line =
     (case parseCombatLine mkDate line of
        None \<Rightarrow> events
      | Some ev \<Rightarrow> if type ev \<noteq> ''unknown'' then events @ [ev] else events)"

definition parseLogContent :: "date_ctor \<Rightarrow> string \<Rightarrow> event list" where
  "parseLogContent mkDate content = foldl (push_line mkDate) [] (split_lines content)"

subsection \<open>Statistics\<close>

record weapon_stats =
  wdamage :: jsnum
  hits :: nat
  misses :: nat

record stats =
  totalDamageDealt :: jsnum
  totalDamageReceived :: jsnum
  shotsHit :: nat
  shotsMissed :: nat
  hitRate :: real
  targets :: "string \<rightharpoonup> jsnum"
  weapons :: "string \<rightharpoonup> weapon_stats"
  hitQualities :: "string \<rightharpoonup> nat"
  timespan_start :: "jsnum option"
  timespan_end :: "jsnum option"
  dps :: "jsnum option"

text \<open>
  The counters are natural numbers, \<open>hitRate\<close> a real, the totals JavaScript numbers.
  The three tables are maps from a name to its entry: the own properties of the source's
  objects. The source reads a table with \<open>table[name]\<close>, which also finds what every
  object inherits (\<open>constructor\<close>, \<open>toString\<close>, \<open>__proto__\<close> and the like); a target,
  weapon or hit quality of such a name is not modelled, and the tables are what the
  source builds on all other names. The counters, the totals, \<open>hitRate\<close>, \<open>dps\<close>
  and the time span do not depend on the tables. The two ends of \<open>timespan\<close> are fields of the record, and \<open>dps\<close> is
  an option since the source may leave it out.

  Truthiness of an optional string field (absent and empty are falsy), \<open>x || 0\<close> on a
  number that may be absent (absent, zero and NaN give 0), and an absent number in
  arithmetic (undefined converts to NaN).
\<close>

definition truthy :: "string option \<Rightarrow> bool" where
  "truthy v = (case v of None \<Rightarrow> False | Some s \<Rightarrow> s \<noteq> [])"

definition or_zero :: "jsnum option \<Rightarrow> jsnum" where
  "or_zero v = (case v of None \<Rightarrow> Fin 0 | Some x \<Rightarrow> if x = NaN \<or> x = Fin 0 then Fin 0 else x)"

definition number_of :: "jsnum option \<Rightarrow> jsnum" where
  "number_of v = (case v of None \<Rightarrow> NaN | Some x \<Rightarrow> x)"

definition initial_stats :: stats where
  "initial_stats =
     \<lparr> totalDamageDealt = Fin 0, totalDamageReceived = Fin 0, shotsHit = 0, shotsMissed = 0,
       hitRate = 0, targets = Map.empty, weapons = Map.empty, hitQualities = Map.empty,
       timespan_start = None, timespan_end = None, dps = None \<rparr>"

definition track_timespan :: "stats \<Rightarrow> event \<Rightarrow> stats" where
  "track_timespan st ev =
     (case timestamp ev of
        None \<Rightarrow> st
      | Some t \<Rightarrow>
          let st1 = (case timespan_start st of
                       None \<Rightarrow> st \<lparr> timespan_start := Some t \<rparr>
                     | Some a \<Rightarrow> if js_lt t a then st \<lparr> timespan_start := Some t \<rparr> else st)
          in (case timespan_end st1 of
                None \<Rightarrow> st1 \<lparr> timespan_end := Some t \<rparr>
              | Some b \<Rightarrow> if js_gt t b then st1 \<lparr> timespan_end := Some t \<rparr> else st1))"

definition weapon_entry :: "stats \<Rightarrow> string \<Rightarrow> weapon_stats" where
  "weapon_entry st w =
     (case weapons st w of
        None \<Rightarrow> \<lparr> wdamage = Fin 0, hits = 0, misses = 0 \<rparr>
      | Some r \<Rightarrow> r)"

definition count_damage_dealt :: "stats \<Rightarrow> event \<Rightarrow> stats" where
  "count_damage_dealt st ev =
     (let st1 = st \<lparr> totalDamageDealt := js_add (totalDamageDealt st) (number_of (damage ev)),
                     shotsHit := Suc (shotsHit st) \<rparr>;
          st2 = (if truthy (target ev)
                 then st1 \<lparr> targets := (targets st1)(text_of (target ev) \<mapsto>
                        js_add (or_zero (targets st1 (text_of (target ev))))
                               (number_of (damage ev))) \<rparr>
                 else st1);
          st3 = (if truthy (weapon ev)
                 then let r = weapon_entry st2 (text_of (weapon ev))
                      in st2 \<lparr> weapons := (weapons st2)(text_of (weapon ev) \<mapsto>
                           r \<lparr> wdamage := js_add (wdamage r) (number_of (damage ev)),
                               hits := Suc (hits r) \<rparr>) \<rparr>
                 else st2)
      in if truthy (hitQuality ev)
         then st3 \<lparr> hitQualities := (hitQualities st3)(text_of (hitQuality ev) \<mapsto>
                Suc (case hitQualities st3 (text_of (hitQuality ev)) of
                       None \<Rightarrow> 0 | Some n \<Rightarrow> n)) \<rparr>
         else st3)"

definition count_miss :: "stats \<Rightarrow> event \<Rightarrow> stats" where
  "count_miss st ev =
     (let st1 = st \<lparr> shotsMissed := Suc (shotsMissed st) \<rparr>
      in if truthy (weapon ev)
         then let r = weapon_entry st1 (text_of (weapon ev))
              in st1 \<lparr> weapons := (weapons st1)(text_of (weapon ev) \<mapsto>
                   r \<lparr> misses := Suc (misses r) \<rparr>) \<rparr>
         else st1)"

definition stats_step :: "stats \<Rightarrow> event \<Rightarrow> stats" where
  "stats_step st ev =
     (let st1 = track_timespan st ev
      in if type ev = ''damage_dealt'' then count_damage_dealt st1 ev
         else if type ev = ''damage_received''
         then st1 \<lparr> totalDamageReceived :=
                      js_add (totalDamageReceived st1) (number_of (damage ev)) \<rparr>
         else if type ev = ''miss'' then count_miss st1 ev
         else st1)"

definition finish_stats :: "stats \<Rightarrow> stats" where
  "finish_stats st =
     (let totalShots = shotsHit st + shotsMissed st;
          st1 = st \<lparr> hitRate := (if 0 < totalShots
                                  then real (shotsHit st) / real totalShots * 100 else 0) \<rparr>
      in case (timespan_start st1, timespan_end st1) of
           (Some a, Some b) \<Rightarrow>
             let durationSeconds = js_div (js_sub b a) (Fin 1000)
             in st1 \<lparr> dps := Some (if js_gt durationSeconds (Fin 0)
                                    then js_div (totalDamageDealt st1) durationSeconds
                                    else Fin 0) \<rparr>
         | _ \<Rightarrow> st1)"

definition calculateStats :: "event list \<Rightarrow> stats" where
  "calculateStats events = finish_stats (foldl stats_step initial_stats events)"

section \<open>Notions used in the statements\<close>

text \<open>
  The groups that take part in every match of a pattern: those not under an alternative.
\<close>

fun sure_groups :: "rx \<Rightarrow> nat set" where
  "sure_groups (Group n r) = insert n (sure_groups r)"
| "sure_groups (Cat rs) = \<Union> (set (map sure_groups rs))"
| "sure_groups _ = {}"

text \<open>
  The front of the line pattern, found somewhere in a line: an opening bracket, one or
  more digits, dots, colons or white space, a closing bracket, optional white space, and
  a parenthesized channel type of one or more word characters. None of the three runs can
  contain the delimiter that ends it, so each run is the longest one.
\<close>

definition stamp_char :: "char \<Rightarrow> bool" where
  "stamp_char x = (is_digit x \<or> x = CHR ''.'' \<or> x = CHR '':'' \<or> is_space x)"

definition shape_at :: "string \<Rightarrow> bool" where
  "shape_at s =
     (case s of
        [] \<Rightarrow> False
      | x # xs \<Rightarrow>
          x = CHR ''['' \<and> takeWhile stamp_char xs \<noteq> [] \<and>
          (case dropWhile stamp_char xs of
             [] \<Rightarrow> False
           | y # ys \<Rightarrow>
               y = CHR '']'' \<and>
               (case dropWhile is_space ys of
                  [] \<Rightarrow> False
                | z # zs \<Rightarrow>
                    z = CHR ''('' \<and> takeWhile is_word zs \<noteq> [] \<and>
                    take 1 (dropWhile is_word zs) = '')'')))"

fun has_line_shape :: "string \<Rightarrow> bool" where
  "has_line_shape [] = False"
| "has_line_shape (x # xs) = (shape_at (x # xs) \<or> has_line_shape xs)"


text \<open>What the loop of \<open>parseLogContent\<close> keeps of one line.\<close>

definition keep_event :: "date_ctor \<Rightarrow> string \<Rightarrow> event option" where
  "keep_event mkDate line =
     (case parseCombatLine mkDate line of
        None \<Rightarrow> None
      | Some ev \<Rightarrow> if type ev \<noteq> ''unknown'' then Some ev else None)"

section \<open>Example inputs\<close>

text \<open>
  Log lines on which the theorems below are run: content that matches the damage-dealt
  and the miss pattern, the damage-dealt and the damage-received pattern, all three
  patterns, the damage-received and the miss pattern, a plain damage-received line, the same content on another channel, and the
  same content with no bracketed block in front; and a text of four lines. The date
  constructor of the examples returns its seconds argument.
\<close>

definition content_dealt_miss :: string where
  "content_dealt_miss =
     ''<color=a><b>12</b><color=b><b>3</b>to <b><color=c>Bob</color></b> misses you completely''"

definition line_dealt_miss :: string where
  "line_dealt_miss = ''[ 2024.01.15 20:30:00 ] (combat) '' @ content_dealt_miss"

definition content_dealt_received :: string where
  "content_dealt_received =
     ''<color=a><b>12</b><color=b><b>3</b>to <b><color=c>Bob</color></b> from <b><color=d>Eve</color></b>''"

definition line_dealt_received :: string where
  "line_dealt_received = ''[ 2024.01.15 20:30:00 ] (combat) '' @ content_dealt_received"

definition content_all_three :: string where
  "content_all_three = content_dealt_received @ '' misses you completely''"

definition line_all_three :: string where
  "line_all_three = ''[ 2024.01.15 20:30:00 ] (combat) '' @ content_all_three"

definition content_received_miss :: string where
  "content_received_miss =
     ''<color=a><b>12</b> from <b><color=d>Eve</color></b> misses you completely''"

definition line_received_miss :: string where
  "line_received_miss = ''[ 2024.01.15 20:30:03 ] (combat) '' @ content_received_miss"

definition content_received :: string where
  "content_received = ''<color=a><b>12</b> from <b><color=d>Eve</color></b>''"

definition line_received :: string where
  "line_received = ''[ 2024.01.15 20:30:02 ] (combat) '' @ content_received"

definition line_notify :: string where
  "line_notify = ''[ 2024.01.15 20:30:01 ] (notify) '' @ content_received"

definition line_shapeless :: string where
  "line_shapeless = ''(combat) '' @ content_received"

definition log_text :: string where
  "log_text = line_notify @ [CHR 0x0A] @ line_received @ [CHR 0x0A] @ line_shapeless
                @ [CHR 0x0A] @ line_dealt_miss"

definition seconds_date :: date_ctor where
  "seconds_date year monthIndex day hours minutes seconds = seconds"

text \<open>Parameter sets whose six fields are real numbers.\<close>

abbreviation forward_input :: "real \<Rightarrow> real \<Rightarrow> real \<Rightarrow> real \<Rightarrow> real \<Rightarrow> real \<Rightarrow> hit_params" where
  "forward_input t d ts sr opt f \<equiv>
     \<lparr> transversal = Fin t, distance = Fin d, trackingSpeed = Fin ts,
       signatureRadius = Fin sr, optimalRange = Fin opt, falloff = Fin f \<rparr>"

abbreviation inverse_input :: "real \<Rightarrow> real \<Rightarrow> real \<Rightarrow> real \<Rightarrow> real \<Rightarrow> real \<Rightarrow> inverse_params" where
  "inverse_input p d ts sr opt f \<equiv>
     \<lparr> targetHitChance = Fin p, inv_distance = Fin d, inv_trackingSpeed = Fin ts,
       inv_signatureRadius = Fin sr, inv_optimalRange = Fin opt, inv_falloff = Fin f \<rparr>"

section \<open>Properties of the rounding\<close>

subsection \<open>The nearest integer\<close>

lemma round_even_int [simp]: "round_even (of_int n) = n"
  by (simp add: round_even_def)

lemma round_even_cases:
  "round_even y = \<lfloor>y\<rfloor> \<or> round_even y = \<lfloor>y\<rfloor> + 1"
  by (simp add: round_even_def Let_def)

lemma round_even_err: "\<bar>of_int (round_even y) - y\<bar> \<le> 1 / 2"
  unfolding round_even_def Let_def by (auto; linarith)

lemma round_even_le: "y \<le> of_int N \<Longrightarrow> round_even y \<le> N"
proof -
  assume a: "y \<le> of_int N"
  show ?thesis
  proof (cases "y = of_int N")
    case True then show ?thesis by simp
  next
    case False
    with a have "y < of_int N" by simp
    then have "\<lfloor>y\<rfloor> < N" by (simp add: floor_less_iff)
    then show ?thesis using round_even_cases [of y] by auto
  qed
qed

lemma round_even_ge: "of_int N \<le> y \<Longrightarrow> N \<le> round_even y"
proof -
  assume "of_int N \<le> y"
  then have "N \<le> \<lfloor>y\<rfloor>" by (simp add: le_floor_iff)
  then show ?thesis using round_even_cases [of y] by auto
qed

lemma round_even_minus: "round_even (- y) = - round_even y"
proof (cases "y = of_int \<lfloor>y\<rfloor>")
  case True
  then obtain n where "y = of_int n" by blast
  then show ?thesis by (simp flip: of_int_minus)
next
  case False
  then have f: "\<lfloor>- y\<rfloor> = - \<lfloor>y\<rfloor> - 1"
    by (metis (no_types) ceiling_altdef ceiling_def add_diff_cancel_right' minus_diff_eq uminus_add_conv_diff)
  show ?thesis
    unfolding round_even_def Let_def f
    using False by (auto; linarith?)
qed

subsection \<open>The nearest double\<close>

lemma fl_rv:
  "fl x = (if x = 0 then Fin 0
           else if huge \<le> \<bar>rv x\<bar> then (if 0 < x then PInf else NInf) else Fin (rv x))"
  by (simp add: fl_def)

lemma round_even_half: "\<bar>y\<bar> \<le> 1 / 2 \<Longrightarrow> round_even y = 0"
proof -
  assume a: "\<bar>y\<bar> \<le> 1 / 2"
  show ?thesis
  proof (cases "0 \<le> y")
    case True
    with a have "\<lfloor>y\<rfloor> = 0" by (simp add: floor_eq_iff)
    with a True show ?thesis by (simp add: round_even_def Let_def)
  next
    case False
    with a have "\<lfloor>y\<rfloor> = - 1" by (simp add: floor_eq_iff)
    with a False show ?thesis by (auto simp add: round_even_def Let_def)
  qed
qed

lemma binade_minus [simp]: "binade (- x) = binade x"
  by (simp add: binade_def)

lemma rv_minus: "rv (- x) = - rv x"
  by (simp add: rv_def round_even_minus)

lemma rv_zero [simp]: "rv 0 = 0"
  using round_even_int [of 0] by (simp add: rv_def)

lemma fl_zero [simp]: "fl 0 = Fin 0"
  by (simp add: fl_def)


lemma floor_log_le: "x \<noteq> 0 \<Longrightarrow> \<bar>x\<bar> < 2 powr of_int e \<Longrightarrow> \<lfloor>log 2 \<bar>x\<bar>\<rfloor> < e"
proof -
  assume "x \<noteq> 0" "\<bar>x\<bar> < 2 powr of_int e"
  then have "log 2 \<bar>x\<bar> < of_int e"
    by (simp add: log_less_iff)
  then show ?thesis by (simp add: floor_less_iff)
qed


lemma binade_le:
  assumes "x \<noteq> 0" "\<bar>x\<bar> < 2 powr of_int (k + 53)" "- 1074 \<le> k"
  shows "binade x - 52 \<le> k"
  using floor_log_le [OF assms(1,2)] assms(3) by (simp add: binade_def)


lemma grid_int:
  assumes "k0 \<le> k"
  shows "(of_int j :: real) * 2 powr of_int k / 2 powr of_int k0 = of_int (j * 2 ^ nat (k - k0))"
proof -
  have "2 powr of_int k / 2 powr of_int k0 = (2::real) powr of_int (k - k0)"
    by (simp add: powr_diff)
  also have "\<dots> = 2 ^ nat (k - k0)"
    using assms by (simp add: powr_realpow [symmetric])
  finally have "2 powr of_int k / 2 powr of_int k0 = (2::real) ^ nat (k - k0)" .
  then have "(of_int j :: real) * (2 powr of_int k / 2 powr of_int k0) = of_int j * 2 ^ nat (k - k0)"
    by (simp only:)
  then show ?thesis by simp
qed

lemma rv_le:
  assumes "binade x - 52 \<le> k" "x \<le> of_int j * 2 powr of_int k"
  shows "rv x \<le> of_int j * 2 powr of_int k"
proof -
  let ?q = "2 powr of_int (binade x - 52) :: real"
  have q: "0 < ?q" by simp
  have "x / ?q \<le> of_int j * 2 powr of_int k / ?q"
    using assms(2) q by (simp add: divide_right_mono)
  also have "\<dots> = of_int (j * 2 ^ nat (k - (binade x - 52)))"
    by (rule grid_int [OF assms(1)])
  finally have "round_even (x / ?q) \<le> j * 2 ^ nat (k - (binade x - 52))"
    by (rule round_even_le)
  then have "of_int (round_even (x / ?q)) \<le> (of_int (j * 2 ^ nat (k - (binade x - 52))) :: real)"
    by (simp only: of_int_le_iff)
  then have "of_int (round_even (x / ?q)) * ?q \<le> of_int (j * 2 ^ nat (k - (binade x - 52))) * ?q"
    using q by (simp only: mult_le_cancel_right_pos)
  also have "of_int (j * 2 ^ nat (k - (binade x - 52))) * ?q = of_int j * 2 powr of_int k"
    unfolding grid_int [OF assms(1), of j, symmetric] using q by simp
  finally show ?thesis by (simp add: rv_def)
qed

lemma rv_ge:
  assumes "binade x - 52 \<le> k" "of_int j * 2 powr of_int k \<le> x"
  shows "of_int j * 2 powr of_int k \<le> rv x"
proof -
  have "binade (- x) - 52 \<le> k" "- x \<le> of_int (- j) * 2 powr of_int k"
    using assms by simp_all
  from rv_le [OF this] show ?thesis by (simp add: rv_minus)
qed

lemma rv_exact:
  assumes "binade x - 52 \<le> k" "x = of_int j * 2 powr of_int k"
  shows "rv x = x"
  using rv_le [OF assms(1), of j] rv_ge [OF assms(1), of j] assms(2) by simp

lemma rv_nonneg: "0 \<le> x \<Longrightarrow> 0 \<le> rv x"
proof -
  assume "0 \<le> x"
  then have "0 \<le> x / 2 powr of_int (binade x - 52)" by simp
  then have "0 \<le> round_even (x / 2 powr of_int (binade x - 52))"
    using round_even_ge [of 0] by simp
  then show ?thesis by (simp add: rv_def)
qed

lemma fl_nonneg: "0 \<le> x \<Longrightarrow> fl x = PInf \<or> (\<exists>y. fl x = Fin y \<and> 0 \<le> y)"
  using rv_nonneg [of x] by (auto simp: fl_rv)

lemma fl_exact:
  assumes "\<bar>of_int j\<bar> < (2::real) ^ 53" "- 1074 \<le> k" "\<bar>of_int j * 2 powr of_int k\<bar> < huge"
  shows "fl (of_int j * 2 powr of_int k) = Fin (of_int j * 2 powr of_int k)"
proof (cases "j = 0")
  case True
  then show ?thesis by simp
next
  case False
  let ?x = "of_int j * 2 powr of_int k :: real"
  have x0: "?x \<noteq> 0" using False by simp
  have "\<bar>?x\<bar> = \<bar>of_int j\<bar> * 2 powr of_int k" by (simp add: abs_mult)
  also have "\<dots> < 2 ^ 53 * 2 powr of_int k"
    using assms(1) by (simp add: mult_strict_right_mono)
  also have "\<dots> = 2 powr of_int (k + 53)"
    by (simp add: powr_add powr_realpow [symmetric])
  finally have "binade ?x - 52 \<le> k"
    using binade_le [OF x0 _ assms(2)] by simp
  then have "rv ?x = ?x" by (rule rv_exact) simp
  with assms(3) x0 show ?thesis by (simp add: fl_rv)
qed

lemma huge_gt: "2 ^ 53 < huge" "1 < huge" "0 < huge"
proof -
  have "(2::real) powr 53 < 2 powr 1024" by (rule powr_less_mono) simp_all
  then show "2 ^ 53 < huge" by (simp add: huge_def)
  then show "1 < huge" "0 < huge" by simp_all
qed

lemma fl_int: "\<bar>of_int j\<bar> < (2::real) ^ 53 \<Longrightarrow> fl (of_int j) = Fin (of_int j)"
  using fl_exact [of j 0] huge_gt(1) by simp

lemma fl_between:
  assumes "of_int a * 2 powr of_int k \<le> x" "x \<le> of_int b * 2 powr of_int k"
    and "\<bar>x\<bar> < 2 powr of_int (k + 53)" "- 1074 \<le> k"
    and "- huge < of_int a * 2 powr of_int k" "of_int b * 2 powr of_int k < huge"
  shows "\<exists>y. fl x = Fin y \<and> of_int a * 2 powr of_int k \<le> y \<and> y \<le> of_int b * 2 powr of_int k"
proof (cases "x = 0")
  case True
  with assms(1,2) show ?thesis by simp
next
  case False
  from binade_le [OF False assms(3,4)] have g: "binade x - 52 \<le> k" .
  from rv_le [OF g assms(2)] rv_ge [OF g assms(1)] assms(5,6)
  have "of_int a * 2 powr of_int k \<le> rv x" "rv x \<le> of_int b * 2 powr of_int k"
    "\<bar>rv x\<bar> < huge"
    by simp_all
  with False show ?thesis by (simp add: fl_rv)
qed

lemma fl_unit: "0 \<le> x \<Longrightarrow> x \<le> 1 \<Longrightarrow> \<exists>y. fl x = Fin y \<and> 0 \<le> y \<and> y \<le> 1"
  using fl_between [of 0 0 x 1] huge_gt by simp

lemma fl_underflow:
  assumes "\<bar>x\<bar> \<le> 2 powr (- 1075)"
  shows "fl x = Fin 0"
proof (cases "x = 0")
  case True
  then show ?thesis by simp
next
  case False
  have "(2::real) powr (- 1075) < 2 powr of_int (- 1074)" by simp
  with assms have "\<bar>x\<bar> < 2 powr of_int (- 1074)" by linarith
  from floor_log_le [OF False this] have b: "binade x = - 1022"
    by (simp add: binade_def)
  have "\<bar>x / 2 powr (- 1074)\<bar> = \<bar>x\<bar> / 2 powr (- 1074)" by simp
  also have "\<dots> \<le> 2 powr (- 1075) / 2 powr (- 1074)"
    using assms by (simp add: divide_right_mono)
  also have "\<dots> = 1 / 2" by (simp add: powr_diff [symmetric] powr_minus)
  finally have "round_even (x / 2 powr (- 1074)) = 0" by (rule round_even_half)
  then have "rv x = 0" by (simp add: rv_def b)
  with False huge_gt(3) show ?thesis by (simp add: fl_rv)
qed





lemma fl_numeral: "\<bar>numeral n\<bar> < (2::real) ^ 53 \<Longrightarrow> fl (numeral n) = Fin (numeral n)"
  using fl_int [of "numeral n"] by simp

lemma fl_one [simp]: "fl 1 = Fin 1"
  using fl_int [of 1] by simp

lemma fl_not_NaN [simp]: "fl x \<noteq> NaN"
  by (simp add: fl_rv)

lemma fl_neg_numeral:
  "\<bar>numeral n\<bar> < (2::real) ^ 53 \<Longrightarrow> fl (- numeral n) = Fin (- numeral n)"
  using fl_int [of "- numeral n"] by simp


lemma fl_pow2:
  assumes "- 1074 \<le> k" "k < 1024"
  shows "fl (2 powr of_int k) = Fin (2 powr of_int k)"
proof -
  have "(2::real) powr of_int k < 2 powr 1024"
    by (rule powr_less_mono) (use assms in simp_all)
  then have "\<bar>of_int 1 * (2::real) powr of_int k\<bar> < huge" by (simp add: huge_def)
  from fl_exact [OF _ assms(1) this] show ?thesis by simp
qed

section \<open>Properties of the calculator\<close>

subsection \<open>Values that are not negative\<close>

lemma js_le_zero_iff: "js_le (Fin 0) v \<longleftrightarrow> v = PInf \<or> (\<exists>x. v = Fin x \<and> 0 \<le> x)"
  by (cases v) auto

lemma fl_ge_zero: "0 \<le> x \<Longrightarrow> js_le (Fin 0) (fl x)"
  using fl_nonneg [of x] by (auto simp: js_le_zero_iff)

lemma square_nonneg: "r \<noteq> NaN \<Longrightarrow> js_le (Fin 0) (js_mul r r)"
  by (cases r) (simp_all add: inf_of_sign_def fl_ge_zero)

lemma add_nonneg_ext: "js_le (Fin 0) a \<Longrightarrow> js_le (Fin 0) b \<Longrightarrow> js_le (Fin 0) (js_add a b)"
  by (cases a; cases b) (simp_all add: fl_ge_zero)

lemma excess_nonneg:
  "js_le (Fin 0) (math_max (Fin 0) (js_sub (Fin d) (Fin opt)))"
  by (cases "fl (d - opt)") (simp_all add: js_sub_def)

lemma div_pos_nonneg: "js_le (Fin 0) a \<Longrightarrow> 0 < f \<Longrightarrow> js_le (Fin 0) (js_div a (Fin f))"
  by (cases a) (simp_all add: inf_of_sign_def fl_ge_zero)

lemma nonneg_not_NaN: "js_le (Fin 0) a \<Longrightarrow> a \<noteq> NaN"
  by auto

lemma range_nonneg: "js_le (Fin 0) (calculateRangeComponent (Fin d) (Fin opt) (Fin f))"
proof (cases "f \<le> 0")
  case True
  then show ?thesis by (simp add: calculateRangeComponent_def)
next
  case False
  then have "js_le (Fin 0) (js_div (math_max (Fin 0) (js_sub (Fin d) (Fin opt))) (Fin f))"
    by (intro div_pos_nonneg excess_nonneg) simp
  then have "js_le (Fin 0) (js_mul (js_div (math_max (Fin 0) (js_sub (Fin d) (Fin opt))) (Fin f))
               (js_div (math_max (Fin 0) (js_sub (Fin d) (Fin opt))) (Fin f)))"
    by (intro square_nonneg nonneg_not_NaN)
  with False show ?thesis by (simp add: calculateRangeComponent_def Let_def)
qed

lemma tracking_nonneg:
  assumes "calculateTrackingComponent av (Fin ts) (Fin sr) \<noteq> NaN"
  shows "js_le (Fin 0) (calculateTrackingComponent av (Fin ts) (Fin sr))"
proof (cases "ts \<le> 0 \<or> sr \<le> 0")
  case True
  then show ?thesis by (auto simp: calculateTrackingComponent_def)
next
  case False
  let ?r = "js_div (js_mul av SIGNATURE_RESOLUTION) (js_mul (Fin ts) (Fin sr))"
  from False have eq: "calculateTrackingComponent av (Fin ts) (Fin sr) = js_mul ?r ?r"
    by (simp add: calculateTrackingComponent_def Let_def)
  with assms have "?r \<noteq> NaN" by (cases ?r) auto
  then show ?thesis unfolding eq by (rule square_nonneg)
qed

lemma half_powr_le_one: "0 \<le> (e::real) \<Longrightarrow> (1 / 2) powr e \<le> 1"
  using powr_mono' [of 0 e "1 / 2"] by simp

lemma pow_half_unit:
  assumes "js_le (Fin 0) e"
  shows "\<exists>h. math_pow (Fin (1 / 2)) e = Fin h \<and> 0 \<le> h \<and> h \<le> 1"
proof -
  from assms consider "e = PInf" | x where "e = Fin x" "0 \<le> x"
    by (auto simp: js_le_zero_iff)
  then show ?thesis
  proof cases
    case 1
    then show ?thesis by simp
  next
    case 2
    then show ?thesis
      using fl_unit [of "(1 / 2) powr x"] half_powr_le_one [of x] by auto
  qed
qed

lemma clamp_unit:
  "0 \<le> h \<Longrightarrow> h \<le> 1 \<Longrightarrow> math_min (Fin 1) (math_max (Fin 0) (Fin h)) = Fin h"
  by auto

subsection \<open>The halving law\<close>

text \<open>
  Where the tracking component is a number or an infinity, the exponent is not negative,
  \<open>0.5\<close> raised to it lies between 0 and 1, and the clamp leaves it as it is.
\<close>

lemma hitChance_unit:
  assumes "calculateTrackingComponent (calculateAngularVelocity (Fin t) (Fin d)) (Fin ts) (Fin sr)
             \<noteq> NaN"
  shows "hitChance (calculateHitChance (forward_input t d ts sr opt f))
     = math_pow (Fin (1 / 2))
         (js_add (calculateTrackingComponent (calculateAngularVelocity (Fin t) (Fin d))
                    (Fin ts) (Fin sr))
                 (calculateRangeComponent (Fin d) (Fin opt) (Fin f)))
   \<and> js_le (Fin 0) (hitChance (calculateHitChance (forward_input t d ts sr opt f)))
   \<and> js_le (hitChance (calculateHitChance (forward_input t d ts sr opt f))) (Fin 1)"
proof -
  let ?tc = "calculateTrackingComponent (calculateAngularVelocity (Fin t) (Fin d)) (Fin ts) (Fin sr)"
  let ?rc = "calculateRangeComponent (Fin d) (Fin opt) (Fin f)"
  have "js_le (Fin 0) (js_add ?tc ?rc)"
    by (rule add_nonneg_ext [OF tracking_nonneg [OF assms] range_nonneg])
  then obtain h where h: "math_pow (Fin (1 / 2)) (js_add ?tc ?rc) = Fin h" "0 \<le> h" "h \<le> 1"
    using pow_half_unit by blast
  then show ?thesis
    by (simp add: calculateHitChance_def Let_def clamp_unit)
qed

lemma tiny_product:
  "fl (2 powr (- 600) * 2 powr (- 600)) = Fin 0"
proof -
  have "(2::real) powr (- 600) * 2 powr (- 600) = 2 powr (- 1200)"
    by (simp add: powr_add [symmetric])
  moreover have "(2::real) powr (- 1200) \<le> 2 powr (- 1075)"
    by (rule powr_mono) simp_all
  ultimately have "\<bar>(2::real) powr (- 600) * 2 powr (- 600)\<bar> \<le> 2 powr (- 1075)" by simp
  from fl_underflow [OF this] show ?thesis .
qed

text \<open>
  Claim C1 says that on every parameter set of real numbers the reported \<open>hitChance\<close>
  is \<open>0.5\<close> raised to the sum of the tracking component and the range component, and
  lies between 0 and 1. At transversal 0, distance 1, tracking speed and signature radius
  both \<open>2^(-600)\<close> (a double, and greater than 0, so that the guard of the tracking
  component lets it pass), optimal range 1000 and falloff 1, the product of tracking
  speed and signature radius rounds to zero, the ratio is \<open>0 / 0\<close>, the tracking
  component is NaN, and \<open>Math.min(1, Math.max(0, NaN))\<close> is NaN: the reported
  \<open>hitChance\<close> is NaN, which is neither at least 0 nor at most 1.
\<close>

theorem hitChance_NaN_example:
  "fl (2 powr (- 600)) = Fin (2 powr (- 600))
   \<and> js_lt (Fin 0) (Fin (2 powr (- 600)))
   \<and> trackingComponent (calculateHitChance
        (forward_input 0 1 (2 powr (- 600)) (2 powr (- 600)) 1000 1)) = NaN
   \<and> hitChance (calculateHitChance
        (forward_input 0 1 (2 powr (- 600)) (2 powr (- 600)) 1000 1)) = NaN
   \<and> \<not> js_le (Fin 0) (hitChance (calculateHitChance
        (forward_input 0 1 (2 powr (- 600)) (2 powr (- 600)) 1000 1)))
   \<and> \<not> js_le (hitChance (calculateHitChance
        (forward_input 0 1 (2 powr (- 600)) (2 powr (- 600)) 1000 1))) (Fin 1)"
proof -
  have r: "fl (2 powr (- 600)) = Fin (2 powr (- 600))"
    using fl_pow2 [of "- 600"] by simp
  have tc: "calculateTrackingComponent (calculateAngularVelocity (Fin 0) (Fin 1))
              (Fin (2 powr (- 600))) (Fin (2 powr (- 600))) = NaN"
    by (simp add: calculateAngularVelocity_def calculateTrackingComponent_def
          SIGNATURE_RESOLUTION_def tiny_product inf_of_sign_def Let_def)
  show ?thesis
    by (simp add: r calculateHitChance_def Let_def tc)
qed

subsection \<open>The inverse, case by case\<close>







text \<open>
  Claim C3. On real parameters \<open>calculateMaxTransversal\<close> returns 0 when the target hit
  chance is at most 0 or above 1. Otherwise, with \<open>totalExponent = log(target) / log(0.5)\<close>
  and the range component of distance, optimal range and falloff, it returns positive
  infinity when \<open>totalExponent - rangeComponent \<le> 0\<close>, and
  \<open>sqrt(totalExponent - rangeComponent) * trackingSpeed * signatureRadius / 40000 *
  distance\<close> otherwise, each operation being that of the source, from left to right.
\<close>

theorem calculateMaxTransversal_contract:
  "calculateMaxTransversal (inverse_input p d ts sr opt f) =
     (if p \<le> 0 \<or> 1 < p then Fin 0
      else if js_le (js_sub (js_div (math_log (Fin p)) (math_log (Fin (1 / 2))))
                            (calculateRangeComponent (Fin d) (Fin opt) (Fin f))) (Fin 0)
      then PInf
      else js_mul
             (js_div
                (js_mul
                   (js_mul
                      (math_sqrt (js_sub (js_div (math_log (Fin p)) (math_log (Fin (1 / 2))))
                                         (calculateRangeComponent (Fin d) (Fin opt) (Fin f))))
                      (Fin ts))
                   (Fin sr))
                (Fin 40000))
             (Fin d))"
  by (simp add: calculateMaxTransversal_def js_gt_def Let_def SIGNATURE_RESOLUTION_def)

subsection \<open>The sign of the inverse\<close>
















section \<open>Properties of the statistics\<close>

lemma track_timespan_counts [simp]:
  "shotsHit (track_timespan st ev) = shotsHit st"
  "shotsMissed (track_timespan st ev) = shotsMissed st"
  "dps (track_timespan st ev) = dps st"
  "totalDamageDealt (track_timespan st ev) = totalDamageDealt st"
  by (simp_all add: track_timespan_def Let_def split: option.splits)



lemma stats_step_dps: "dps (stats_step st ev) = dps st"
  by (simp add: stats_step_def count_damage_dealt_def count_miss_def Let_def)



lemma fold_dps: "dps (foldl stats_step st es) = dps st"
  by (induction es arbitrary: st) (simp_all add: stats_step_dps)

lemma finish_counts [simp]:
  "shotsHit (finish_stats st) = shotsHit st"
  "shotsMissed (finish_stats st) = shotsMissed st"
  "timespan_start (finish_stats st) = timespan_start st"
  "timespan_end (finish_stats st) = timespan_end st"
  "totalDamageDealt (finish_stats st) = totalDamageDealt st"
  by (simp_all add: finish_stats_def Let_def split: option.splits)



lemma track_timespan_start:
  "(timespan_start (track_timespan st ev) = None) = (timespan_start st = None \<and> timestamp ev = None)"
  by (simp add: track_timespan_def Let_def split: option.splits)

lemma track_timespan_end:
  "(timespan_end (track_timespan st ev) = None) = (timespan_end st = None \<and> timestamp ev = None)"
  by (simp add: track_timespan_def Let_def split: option.splits)

lemma stats_step_timespan:
  "timespan_start (stats_step st ev) = timespan_start (track_timespan st ev)"
  "timespan_end (stats_step st ev) = timespan_end (track_timespan st ev)"
  by (simp_all add: stats_step_def count_damage_dealt_def count_miss_def Let_def)

lemma fold_start:
  "(timespan_start (foldl stats_step st es) = None)
     = (timespan_start st = None \<and> list_all (\<lambda>e. timestamp e = None) es)"
  by (induction es arbitrary: st) (auto simp: stats_step_timespan track_timespan_start)

lemma fold_end:
  "(timespan_end (foldl stats_step st es) = None)
     = (timespan_end st = None \<and> list_all (\<lambda>e. timestamp e = None) es)"
  by (induction es arbitrary: st) (auto simp: stats_step_timespan track_timespan_end)

lemma finish_dps:
  "dps st = None \<Longrightarrow> dps (finish_stats st) =
     (case (timespan_start st, timespan_end st) of
        (Some a, Some b) \<Rightarrow>
          Some (if js_gt (js_div (js_sub b a) (Fin 1000)) (Fin 0)
                then js_div (totalDamageDealt st) (js_div (js_sub b a) (Fin 1000))
                else Fin 0)
      | _ \<Rightarrow> None)"
  by (simp add: finish_stats_def Let_def split: option.splits)

text \<open>
  Claim C7, amended. \<open>dps\<close> is defined exactly when both ends of the time span are
  set, which is when at least one event carries a timestamp. It is then
  \<open>totalDamageDealt\<close> divided by the span in seconds when that span is strictly
  positive, and 0 otherwise. With no timestamp at all, and so for the empty list of
  events, \<open>dps\<close> is undefined and both ends of the time span are null.
\<close>

theorem calculateStats_dps:
  "dps (calculateStats es) =
     (case (timespan_start (calculateStats es), timespan_end (calculateStats es)) of
        (Some a, Some b) \<Rightarrow>
          Some (if js_gt (js_div (js_sub b a) (Fin 1000)) (Fin 0)
                then js_div (totalDamageDealt (calculateStats es)) (js_div (js_sub b a) (Fin 1000))
                else Fin 0)
      | _ \<Rightarrow> None)
   \<and> (timespan_start (calculateStats es) = None) = list_all (\<lambda>e. timestamp e = None) es
   \<and> (timespan_end (calculateStats es) = None) = list_all (\<lambda>e. timestamp e = None) es
   \<and> (dps (calculateStats es) = None) = list_all (\<lambda>e. timestamp e = None) es
   \<and> dps (calculateStats []) = None
   \<and> timespan_start (calculateStats []) = None
   \<and> timespan_end (calculateStats []) = None"
proof -
  have "dps (foldl stats_step initial_stats es) = None"
    by (simp add: fold_dps initial_stats_def)
  then have dps_eq: "dps (calculateStats es) =
     (case (timespan_start (calculateStats es), timespan_end (calculateStats es)) of
        (Some a, Some b) \<Rightarrow>
          Some (if js_gt (js_div (js_sub b a) (Fin 1000)) (Fin 0)
                then js_div (totalDamageDealt (calculateStats es)) (js_div (js_sub b a) (Fin 1000))
                else Fin 0)
      | _ \<Rightarrow> None)"
    by (simp add: calculateStats_def finish_dps split: option.splits)
  moreover have ends: "(timespan_start (calculateStats es) = None) = list_all (\<lambda>e. timestamp e = None) es"
    "(timespan_end (calculateStats es) = None) = list_all (\<lambda>e. timestamp e = None) es"
    by (simp_all add: calculateStats_def fold_start fold_end initial_stats_def)
  ultimately have "(dps (calculateStats es) = None) = list_all (\<lambda>e. timestamp e = None) es"
    by (auto split: option.splits)
  moreover note dps_eq ends
  moreover have "dps (calculateStats []) = None" "timespan_start (calculateStats []) = None"
    "timespan_end (calculateStats []) = None"
    by (simp_all add: calculateStats_def finish_stats_def initial_stats_def Let_def)
  ultimately show ?thesis by blast
qed

text \<open>
  Claim C7, as stated, at a single event that carries a timestamp: both ends of the time
  span are that timestamp, the span is zero, hence not strictly positive, and yet
  \<open>dps\<close> is defined, with the value 0.
\<close>

theorem dps_defined_on_zero_span:
  "timespan_start (calculateStats [\<lparr> timestamp = Some (Fin 1705350600000), raw = [],
       type = ''damage_dealt'', damage = Some (Fin 50), target = Some ''Some Target'',
       source = None, weapon = Some ''Railgun'', hitQuality = None \<rparr>]) = Some (Fin 1705350600000)
   \<and> timespan_end (calculateStats [\<lparr> timestamp = Some (Fin 1705350600000), raw = [],
       type = ''damage_dealt'', damage = Some (Fin 50), target = Some ''Some Target'',
       source = None, weapon = Some ''Railgun'', hitQuality = None \<rparr>]) = Some (Fin 1705350600000)
   \<and> dps (calculateStats [\<lparr> timestamp = Some (Fin 1705350600000), raw = [],
       type = ''damage_dealt'', damage = Some (Fin 50), target = Some ''Some Target'',
       source = None, weapon = Some ''Railgun'', hitQuality = None \<rparr>]) = Some (Fin 0)
   \<and> \<not> js_gt (js_div (js_sub (Fin 1705350600000) (Fin 1705350600000)) (Fin 1000)) (Fin 0)"
  by (simp add: calculateStats_def finish_stats_def initial_stats_def stats_step_def
        track_timespan_def count_damage_dealt_def truthy_def text_of_def or_zero_def
        number_of_def weapon_entry_def js_gt_def js_sub_def Let_def fl_numeral)

section \<open>Properties of the matcher\<close>

subsection \<open>What a successful match has consumed\<close>

lemma m_Str_sound:
  "m False (Str w) s c k = Some res \<Longrightarrow> \<exists>s'. s = w @ s' \<and> k s' c = Some res"
proof (induction w arbitrary: s)
  case Nil
  then show ?case by simp
next
  case (Cons y ys)
  then show ?case by (cases s) (auto split: if_splits)
qed

lemma m_Star_sound:
  "m i (Star a) s c k = Some res \<Longrightarrow>
     \<exists>p s'. s = p @ s' \<and> list_all (atom_ok i a) p \<and> k s' c = Some res"
proof (induction s)
  case Nil
  then show ?case by simp
next
  case (Cons x xs)
  show ?case
  proof (cases "atom_ok i a x \<and> m i (Star a) xs c k = Some res")
    case True
    with Cons.IH obtain p s' where "xs = p @ s'" "list_all (atom_ok i a) p" "k s' c = Some res"
      by blast
    with True have "x # xs = (x # p) @ s' \<and> list_all (atom_ok i a) (x # p) \<and> k s' c = Some res"
      by simp
    then show ?thesis by blast
  next
    case False
    with Cons.prems have "k (x # xs) c = Some res"
      by (auto split: if_splits option.splits)
    then have "x # xs = [] @ (x # xs) \<and> list_all (atom_ok i a) [] \<and> k (x # xs) c = Some res"
      by simp
    then show ?thesis by blast
  qed
qed

lemma m_Plus_sound:
  assumes "m i (Plus a) s c k = Some res"
  shows "\<exists>p s'. s = p @ s' \<and> p \<noteq> [] \<and> list_all (atom_ok i a) p \<and> k s' c = Some res"
proof (cases s)
  case Nil
  with assms show ?thesis by simp
next
  case (Cons x xs)
  with assms have x: "atom_ok i a x" and "m i (Star a) xs c k = Some res"
    by (auto split: if_splits)
  then obtain p s' where "xs = p @ s'" "list_all (atom_ok i a) p" "k s' c = Some res"
    using m_Star_sound by blast
  with x Cons
  have "s = (x # p) @ s' \<and> x # p \<noteq> [] \<and> list_all (atom_ok i a) (x # p) \<and> k s' c = Some res"
    by simp
  then show ?thesis by blast
qed

lemma search_sound:
  "search i r s = Some c \<Longrightarrow> \<exists>pre suf. s = pre @ suf \<and> match_at i r suf = Some c"
proof (induction s)
  case Nil
  then show ?case by simp
next
  case (Cons x xs)
  show ?case
  proof (cases "match_at i r (x # xs)")
    case None
    with Cons obtain pre suf where "xs = pre @ suf" "match_at i r suf = Some c" by auto
    then have "x # xs = (x # pre) @ suf \<and> match_at i r suf = Some c" by simp
    then show ?thesis by blast
  next
    case (Some c')
    with Cons.prems have "x # xs = [] @ (x # xs) \<and> match_at i r (x # xs) = Some c" by simp
    then show ?thesis by blast
  qed
qed

subsection \<open>The groups of a successful match\<close>

lemma m_captures:
  "m i r s c k = Some res \<Longrightarrow>
     \<exists>s' c'. k s' c' = Some res \<and> dom c \<subseteq> dom c' \<and> sure_groups r \<subseteq> dom c'"
proof (induction i r s c k rule: m.induct)
  case (13 i r rs s c k)
  from "13.prems" have "m i r s c (\<lambda>s' c'. m i (Cat rs) s' c' k) = Some res" by simp
  from "13.IH"(2) [OF this] obtain s1 c1 where "m i (Cat rs) s1 c1 k = Some res"
    and c1: "dom c \<subseteq> dom c1" "sure_groups r \<subseteq> dom c1"
    by blast
  from "13.IH"(1) [OF this(1)] obtain s2 c2 where "k s2 c2 = Some res"
    "dom c1 \<subseteq> dom c2" "sure_groups (Cat rs) \<subseteq> dom c2"
    by blast
  moreover have "sure_groups (Cat (r # rs)) = sure_groups r \<union> sure_groups (Cat rs)"
    by simp
  ultimately
  have "k s2 c2 = Some res \<and> dom c \<subseteq> dom c2 \<and> sure_groups (Cat (r # rs)) \<subseteq> dom c2"
    using c1 by blast
  then show ?case by blast
next
  case (16 i n r s c k)
  from "16.prems" have "m i r s c (\<lambda>s' c'. k s' (c'(n \<mapsto> matched s s'))) = Some res" by simp
  from "16.IH" [OF this] obtain s1 c1 where "k s1 (c1(n \<mapsto> matched s s1)) = Some res"
    and "dom c \<subseteq> dom c1" "sure_groups r \<subseteq> dom c1"
    by blast
  moreover have "dom (c1(n \<mapsto> matched s s1)) = insert n (dom c1)"
    "sure_groups (Group n r) = insert n (sure_groups r)"
    by simp_all
  ultimately
  have "k s1 (c1(n \<mapsto> matched s s1)) = Some res
      \<and> dom c \<subseteq> dom (c1(n \<mapsto> matched s s1))
      \<and> sure_groups (Group n r) \<subseteq> dom (c1(n \<mapsto> matched s s1))"
    by blast
  then show ?case by blast
qed (auto split: if_splits option.splits)

lemma match_at_captures: "match_at i r s = Some c \<Longrightarrow> insert 0 (sure_groups r) \<subseteq> dom c"
  using m_captures [of i "Group 0 r" s "\<lambda>n. None" "\<lambda>s' c'. Some c'" c]
  by (auto simp: match_at_def)

lemma search_captures: "search i r s = Some c \<Longrightarrow> insert 0 (sure_groups r) \<subseteq> dom c"
  using search_sound match_at_captures by blast

lemma js_match_group:
  assumes "js_match re s = Some g" "n \<in> sure_groups (pattern re)" "n \<le> ngroups re"
  shows "group g n \<noteq> None"
proof -
  from assms(1) obtain c where c: "search (icase re) (pattern re) s = Some c"
    and g: "g = map c [0..<Suc (ngroups re)]"
    by (auto simp: js_match_def)
  from search_captures [OF c] assms(2) have "c n \<noteq> None" by auto
  moreover have "group g n = c n"
    using assms(3) unfolding g group_def by (simp add: nth_append del: upt_Suc)
  ultimately show ?thesis by simp
qed

text \<open>
  Every group whose text the parser reads without a test takes part in every match of its
  pattern, so \<open>text_of\<close> never meets an undefined group there.
\<close>

lemma groups_take_part:
  "js_match LOG_LINE_REGEX s = Some g \<Longrightarrow> group g 1 \<noteq> None"
  "js_match LOG_LINE_REGEX s = Some g \<Longrightarrow> group g 2 \<noteq> None"
  "js_match DAMAGE_DEALT_REGEX s = Some g \<Longrightarrow> group g 1 \<noteq> None"
  "js_match DAMAGE_DEALT_REGEX s = Some g \<Longrightarrow> group g 3 \<noteq> None"
  "js_match DAMAGE_RECEIVED_REGEX s = Some g \<Longrightarrow> group g 1 \<noteq> None"
  "js_match DAMAGE_RECEIVED_REGEX s = Some g \<Longrightarrow> group g 2 \<noteq> None"
  "js_match WEAPON_REGEX s = Some g \<Longrightarrow> group g 1 \<noteq> None"
  "js_match HIT_QUALITY_REGEX s = Some g \<Longrightarrow> group g 1 \<noteq> None"
  by (erule js_match_group;
      simp add: LOG_LINE_REGEX_def DAMAGE_DEALT_REGEX_def DAMAGE_RECEIVED_REGEX_def
        WEAPON_REGEX_def HIT_QUALITY_REGEX_def)+

lemma timestamp_groups_take_part:
  "js_match TIMESTAMP_REGEX s = Some g \<Longrightarrow> n \<in> {1, 2, 3, 4, 5, 6} \<Longrightarrow> group g n \<noteq> None"
  by (erule js_match_group; auto simp add: TIMESTAMP_REGEX_def)

subsection \<open>The shape of a log line\<close>

lemma shape_prefix:
  assumes "m False (Cat (Str ''['' # Star (In [Space])
             # Plus (In [Digit, Lit CHR ''.'', Lit CHR '':'', Space]) # Str '']''
             # Star (In [Space]) # Str ''('' # Group n (Plus (In [Word])) # Str '')'' # rs))
             s c k = Some res"
  shows "\<exists>body ws w rest. s = ''['' @ body @ '']'' @ ws @ ''('' @ w @ '')'' @ rest
           \<and> body \<noteq> [] \<and> list_all stamp_char body \<and> list_all is_space ws
           \<and> w \<noteq> [] \<and> list_all is_word w"
proof -
  let ?k7 = "\<lambda>s7 c7. m False (Cat (Str '')'' # rs)) s7 c7 k"
  let ?k6 = "\<lambda>s6 c6. m False (Cat (Group n (Plus (In [Word])) # Str '')'' # rs)) s6 c6 k"
  let ?k5 = "\<lambda>s5 c5. m False (Cat (Str ''('' # Group n (Plus (In [Word])) # Str '')'' # rs)) s5 c5 k"
  let ?k4 = "\<lambda>s4 c4. m False (Cat (Star (In [Space]) # Str ''(''
                 # Group n (Plus (In [Word])) # Str '')'' # rs)) s4 c4 k"
  let ?k3 = "\<lambda>s3 c3. m False (Cat (Str '']'' # Star (In [Space]) # Str ''(''
                 # Group n (Plus (In [Word])) # Str '')'' # rs)) s3 c3 k"
  let ?k2 = "\<lambda>s2 c2. m False (Plus (In [Digit, Lit CHR ''.'', Lit CHR '':'', Space])) s2 c2 ?k3"
  let ?k1 = "\<lambda>s1 c1. m False (Star (In [Space])) s1 c1 ?k2"
  from assms have "m False (Str ''['') s c ?k1 = Some res"
    by (simp only: m.simps)
  from m_Str_sound [OF this] obtain s1 where s1: "s = ''['' @ s1"
    and "m False (Star (In [Space])) s1 c ?k2 = Some res"
    by blast
  from m_Star_sound [OF this(2)] obtain ws0 s2 where s2: "s1 = ws0 @ s2"
    and ws0: "list_all (atom_ok False (In [Space])) ws0"
    and "m False (Plus (In [Digit, Lit CHR ''.'', Lit CHR '':'', Space])) s2 c ?k3 = Some res"
    by blast
  from m_Plus_sound [OF this(3)] obtain b s3 where s3: "s2 = b @ s3" "b \<noteq> []"
    and b: "list_all (atom_ok False (In [Digit, Lit CHR ''.'', Lit CHR '':'', Space])) b"
    and "?k3 s3 c = Some res"
    by blast
  from this(4) have "m False (Str '']'') s3 c ?k4 = Some res"
    by (simp only: m.simps)
  from m_Str_sound [OF this] obtain s4 where s4: "s3 = '']'' @ s4"
    and "?k4 s4 c = Some res"
    by blast
  from this(2) have "m False (Star (In [Space])) s4 c ?k5 = Some res"
    by (simp only: m.simps)
  from m_Star_sound [OF this] obtain ws s5 where s5: "s4 = ws @ s5"
    and ws: "list_all (atom_ok False (In [Space])) ws"
    and "?k5 s5 c = Some res"
    by blast
  from this(3) have "m False (Str ''('') s5 c ?k6 = Some res"
    by (simp only: m.simps)
  from m_Str_sound [OF this] obtain s6 where s6: "s5 = ''('' @ s6"
    and "?k6 s6 c = Some res"
    by blast
  from this(2) have "m False (Plus (In [Word])) s6 c
                       (\<lambda>s' c'. ?k7 s' (c'(n \<mapsto> matched s6 s'))) = Some res"
    by (simp only: m.simps)
  from m_Plus_sound [OF this] obtain w s7 where s7: "s6 = w @ s7" "w \<noteq> []"
    and w: "list_all (atom_ok False (In [Word])) w"
    and "?k7 s7 (c(n \<mapsto> matched s6 s7)) = Some res"
    by blast
  from this(4) have "m False (Str '')'') s7 (c(n \<mapsto> matched s6 s7))
                       (\<lambda>s' c'. m False (Cat rs) s' c' k) = Some res"
    by (simp only: m.simps)
  from m_Str_sound [OF this] obtain s8 where s8: "s7 = '')'' @ s8"
    by blast
  have "list_all stamp_char (ws0 @ b)"
    using ws0 b by (auto simp: list_all_iff stamp_char_def)
  moreover have "list_all is_space ws"
    using ws by (auto simp: list_all_iff)
  moreover have "list_all is_word w"
    using w by (auto simp: list_all_iff)
  moreover have "s = ''['' @ (ws0 @ b) @ '']'' @ ws @ ''('' @ w @ '')'' @ s8"
    by (simp add: s1 s2 s3 s4 s5 s6 s7 s8)
  ultimately
  have "s = ''['' @ (ws0 @ b) @ '']'' @ ws @ ''('' @ w @ '')'' @ s8
          \<and> ws0 @ b \<noteq> [] \<and> list_all stamp_char (ws0 @ b) \<and> list_all is_space ws
          \<and> w \<noteq> [] \<and> list_all is_word w"
    using s3(2) s7(2) by simp
  then show ?thesis by blast
qed

lemma log_line_match_shape:
  assumes "js_match LOG_LINE_REGEX line = Some g"
  shows "\<exists>pre body ws w rest. line = pre @ ''['' @ body @ '']'' @ ws @ ''('' @ w @ '')'' @ rest
           \<and> body \<noteq> [] \<and> list_all stamp_char body \<and> list_all is_space ws
           \<and> w \<noteq> [] \<and> list_all is_word w"
proof -
  from assms obtain c where "search False (pattern LOG_LINE_REGEX) line = Some c"
    by (auto simp: js_match_def LOG_LINE_REGEX_def)
  then obtain pre suf where line: "line = pre @ suf"
    and "match_at False (pattern LOG_LINE_REGEX) suf = Some c"
    using search_sound by blast
  then have "m False (pattern LOG_LINE_REGEX) suf (\<lambda>n. None)
               (\<lambda>s' c'. Some (c'(0 \<mapsto> matched suf s'))) = Some c"
    by (simp only: match_at_def m.simps)
  then have "\<exists>body ws w rest. suf = ''['' @ body @ '']'' @ ws @ ''('' @ w @ '')'' @ rest
           \<and> body \<noteq> [] \<and> list_all stamp_char body \<and> list_all is_space ws
           \<and> w \<noteq> [] \<and> list_all is_word w"
    unfolding LOG_LINE_REGEX_def regex.simps by (rule shape_prefix)
  with line show ?thesis by blast
qed

lemma delimiters:
  "\<not> stamp_char CHR '']''" "\<not> is_space CHR ''(''" "\<not> is_word CHR '')''"
  by (simp_all add: stamp_char_def is_digit_def is_space_def is_word_def)

lemma run_then_stop:
  "list_all P xs \<Longrightarrow> \<not> P y \<Longrightarrow> takeWhile P (xs @ y # ys) = xs \<and> dropWhile P (xs @ y # ys) = y # ys"
  by (induction xs) simp_all

lemma shape_at_found:
  assumes "body \<noteq> []" "list_all stamp_char body" "list_all is_space ws" "w \<noteq> []"
    "list_all is_word w"
  shows "shape_at (''['' @ body @ '']'' @ ws @ ''('' @ w @ '')'' @ rest)"
proof -
  have "takeWhile stamp_char (body @ CHR '']'' # ws @ ''('' @ w @ '')'' @ rest) = body"
    "dropWhile stamp_char (body @ CHR '']'' # ws @ ''('' @ w @ '')'' @ rest)
       = CHR '']'' # ws @ ''('' @ w @ '')'' @ rest"
    using run_then_stop [OF assms(2) delimiters(1)] by simp_all
  moreover have "dropWhile is_space (ws @ CHR ''('' # w @ '')'' @ rest) = CHR ''('' # w @ '')'' @ rest"
    using run_then_stop [OF assms(3) delimiters(2)] by simp
  moreover have "takeWhile is_word (w @ CHR '')'' # rest) = w"
    "dropWhile is_word (w @ CHR '')'' # rest) = CHR '')'' # rest"
    using run_then_stop [OF assms(5) delimiters(3)] by simp_all
  ultimately show ?thesis
    using assms(1,4) by (simp add: shape_at_def)
qed

lemma shape_found:
  assumes "body \<noteq> []" "list_all stamp_char body" "list_all is_space ws" "w \<noteq> []"
    "list_all is_word w"
  shows "has_line_shape (pre @ ''['' @ body @ '']'' @ ws @ ''('' @ w @ '')'' @ rest)"
proof (induction pre)
  case Nil
  from shape_at_found [OF assms, of rest] show ?case by simp
next
  case (Cons x pre)
  then show ?case by simp
qed

section \<open>Properties of the parser\<close>

subsection \<open>One line\<close>

lemma parseCombatLine_needs_shape:
  "js_match LOG_LINE_REGEX line = None \<Longrightarrow> parseCombatLine mkDate line = None"
  by (simp add: parseCombatLine_def)

lemma parseCombatLine_not_combat:
  "js_match LOG_LINE_REGEX line = Some g \<Longrightarrow> group g 1 \<noteq> Some ''combat'' \<Longrightarrow>
     parseCombatLine mkDate line = None"
  by (simp add: parseCombatLine_def)

lemma parseCombatLine_combat:
  assumes "js_match LOG_LINE_REGEX line = Some g" "group g 1 = Some ''combat''"
  shows "parseCombatLine mkDate line =
     Some (extract_hit_quality (text_of (group g 2))
            (extract_weapon (text_of (group g 2))
              (check_miss (text_of (group g 2))
                (check_damage_received (text_of (group g 2))
                  (check_damage_dealt (text_of (group g 2))
                    \<lparr> timestamp = parseTimestamp mkDate line, raw = line, type = ''unknown'',
                      damage = None, target = None, source = None, weapon = None,
                      hitQuality = None \<rparr>)))))"
  using assms by (simp add: parseCombatLine_def Let_def)

lemma extract_keeps:
  "type (extract_weapon content ev) = type ev"
  "damage (extract_weapon content ev) = damage ev"
  "target (extract_weapon content ev) = target ev"
  "source (extract_weapon content ev) = source ev"
  "type (extract_hit_quality content ev) = type ev"
  "damage (extract_hit_quality content ev) = damage ev"
  "target (extract_hit_quality content ev) = target ev"
  "source (extract_hit_quality content ev) = source ev"
  by (simp_all add: extract_weapon_def extract_hit_quality_def split: option.splits)

lemma type_check_miss:
  "type (check_miss content ev) =
     (if js_match MISS_REGEX content \<noteq> None then ''miss'' else type ev)"
  by (simp add: check_miss_def split: option.splits)

lemma type_check_damage_received:
  "type (check_damage_received content ev) =
     (if js_match DAMAGE_RECEIVED_REGEX content \<noteq> None then ''damage_received'' else type ev)"
  by (simp add: check_damage_received_def split: option.splits)

lemma type_check_damage_dealt:
  "type (check_damage_dealt content ev) =
     (if js_match DAMAGE_DEALT_REGEX content \<noteq> None then ''damage_dealt'' else type ev)"
  by (simp add: check_damage_dealt_def split: option.splits)

lemma field_check_miss:
  "damage (check_miss content ev) = damage ev"
  "source (check_miss content ev) = source ev"
  "js_match MISS_REGEX content = None \<Longrightarrow> check_miss content ev = ev"
  "js_match MISS_REGEX content = Some ms \<Longrightarrow>
     target (check_miss content ev) =
       Some (case group ms 1 of None \<Rightarrow> ''you''
             | Some name \<Rightarrow> if name = [] then ''you'' else stripTags name)"
  by (simp_all add: check_miss_def split: option.splits)

lemma field_check_damage_received:
  "target (check_damage_received content ev) = target ev"
  "js_match DAMAGE_RECEIVED_REGEX content = None \<Longrightarrow> check_damage_received content ev = ev"
  "js_match DAMAGE_RECEIVED_REGEX content = Some dr \<Longrightarrow>
     damage (check_damage_received content ev) = Some (parseInt (text_of (group dr 1)))
     \<and> source (check_damage_received content ev) = Some (stripTags (text_of (group dr 2)))"
  by (simp_all add: check_damage_received_def split: option.splits)

lemma field_check_damage_dealt:
  "js_match DAMAGE_DEALT_REGEX content = Some dd \<Longrightarrow>
     damage (check_damage_dealt content ev) = Some (parseInt (text_of (group dd 1)))
     \<and> target (check_damage_dealt content ev) = Some (stripTags (text_of (group dd 3)))"
  by (simp_all add: check_damage_dealt_def split: option.splits)

lemma parseCombatLine_type:
  assumes "parseCombatLine mkDate line = Some ev"
  shows "type ev \<in> {''unknown'', ''damage_dealt'', ''damage_received'', ''miss''}"
proof -
  from assms obtain g
    where g: "js_match LOG_LINE_REGEX line = Some g" "group g 1 = Some ''combat''"
    by (auto simp: parseCombatLine_def split: option.splits if_splits)
  show ?thesis
    using assms
    by (auto simp add: parseCombatLine_combat [OF g] extract_keeps type_check_miss
          type_check_damage_received type_check_damage_dealt split: if_splits)
qed

subsection \<open>The example lines\<close>

lemma ex_dealt_miss:
  "js_match LOG_LINE_REGEX line_dealt_miss
     = Some [Some line_dealt_miss, Some ''combat'', Some content_dealt_miss]"
  "js_match DAMAGE_DEALT_REGEX content_dealt_miss
     = Some [Some ''<color=a><b>12</b><color=b><b>3</b>to <b><color=c>Bob</color></b>'',
             Some ''12'', Some ''3'', Some ''Bob'']"
  "js_match DAMAGE_RECEIVED_REGEX content_dealt_miss = None"
  "js_match MISS_REGEX content_dealt_miss = Some [Some ''misses you completely'', None]"
  by code_simp+

lemma ex_dealt_received:
  "js_match LOG_LINE_REGEX line_dealt_received
     = Some [Some line_dealt_received, Some ''combat'', Some content_dealt_received]"
  "js_match DAMAGE_DEALT_REGEX content_dealt_received
     = Some [Some ''<color=a><b>12</b><color=b><b>3</b>to <b><color=c>Bob</color></b>'',
             Some ''12'', Some ''3'', Some ''Bob'']"
  "js_match DAMAGE_RECEIVED_REGEX content_dealt_received
     = Some [Some content_dealt_received, Some ''12'', Some ''Eve'']"
  "js_match MISS_REGEX content_dealt_received = None"
  by code_simp+

lemma ex_all_three:
  "js_match LOG_LINE_REGEX line_all_three
     = Some [Some line_all_three, Some ''combat'', Some content_all_three]"
  "js_match DAMAGE_DEALT_REGEX content_all_three
     = Some [Some ''<color=a><b>12</b><color=b><b>3</b>to <b><color=c>Bob</color></b>'',
             Some ''12'', Some ''3'', Some ''Bob'']"
  "js_match DAMAGE_RECEIVED_REGEX content_all_three
     = Some [Some content_dealt_received, Some ''12'', Some ''Eve'']"
  "js_match MISS_REGEX content_all_three = Some [Some ''misses you completely'', None]"
  by code_simp+

lemma ex_other_lines:
  "js_match LOG_LINE_REGEX line_shapeless = None"
  "js_match LOG_LINE_REGEX line_notify
     = Some [Some line_notify, Some ''notify'', Some content_received]"
  "js_match DAMAGE_RECEIVED_REGEX content_received
     = Some [Some content_received, Some ''12'', Some ''Eve'']"
  "has_line_shape line_shapeless = False"
  "has_line_shape line_received = True"
  "has_line_shape (''junk '' @ line_received) = True"
  "has_line_shape (''(combat) '' @ content_received @ '' [ 2024.01.15 20:30:02 ]'') = False"
  "split_lines log_text = [line_notify, line_received, line_shapeless, line_dealt_miss]"
  by code_simp+

lemma ex_values:
  "parseInt ''12'' = Fin 12"
  "stripTags ''Bob'' = ''Bob''"
  "stripTags ''Eve'' = ''Eve''"
proof -
  show "parseInt ''12'' = Fin 12"
    by (simp add: parseInt_def is_space_def is_radix_digit_def digit_value_def digits_value_def
          fl_numeral)
  show "stripTags ''Bob'' = ''Bob''" by code_simp
  show "stripTags ''Eve'' = ''Eve''" by code_simp
qed

lemma ex_received_miss:
  "js_match LOG_LINE_REGEX line_received_miss
     = Some [Some line_received_miss, Some ''combat'', Some content_received_miss]"
  "js_match DAMAGE_DEALT_REGEX content_received_miss = None"
  "js_match DAMAGE_RECEIVED_REGEX content_received_miss
     = Some [Some content_received, Some ''12'', Some ''Eve'']"
  "js_match MISS_REGEX content_received_miss = Some [Some ''misses you completely'', None]"
  by code_simp+

lemma ex_received:
  "js_match LOG_LINE_REGEX line_received
     = Some [Some line_received, Some ''combat'', Some content_received]"
  "js_match LOG_LINE_REGEX (''junk '' @ line_received)
     = Some [Some line_received, Some ''combat'', Some content_received]"
  "js_match DAMAGE_DEALT_REGEX content_received = None"
  "js_match MISS_REGEX content_received = None"
  by code_simp+

lemma type_of_combat_line:
  assumes "js_match LOG_LINE_REGEX line = Some g" "group g 1 = Some ''combat''"
  shows "map_option type (parseCombatLine mkDate line) =
     Some (if js_match MISS_REGEX (text_of (group g 2)) \<noteq> None then ''miss''
           else if js_match DAMAGE_RECEIVED_REGEX (text_of (group g 2)) \<noteq> None
           then ''damage_received''
           else if js_match DAMAGE_DEALT_REGEX (text_of (group g 2)) \<noteq> None
           then ''damage_dealt''
           else ''unknown'')"
  by (simp add: parseCombatLine_combat [OF assms] extract_keeps type_check_miss
        type_check_damage_received type_check_damage_dealt)

lemma ex_events:
  "map_option type (parseCombatLine seconds_date line_received) = Some ''damage_received''"
  "map_option type (parseCombatLine seconds_date line_dealt_miss) = Some ''miss''"
  "map_option type (parseCombatLine seconds_date (''junk '' @ line_received))
     = Some ''damage_received''"
proof -
  have g: "group [Some l, Some ''combat'', Some c] 1 = Some ''combat''"
    "text_of (group [Some l, Some ''combat'', Some c] 2) = c" for l c :: string
    by (simp_all add: group_def text_of_def)
  show "map_option type (parseCombatLine seconds_date line_received) = Some ''damage_received''"
    by (simp add: type_of_combat_line [OF ex_received(1) g(1)] g(2) ex_received ex_other_lines)
  show "map_option type (parseCombatLine seconds_date line_dealt_miss) = Some ''miss''"
    by (simp add: type_of_combat_line [OF ex_dealt_miss(1) g(1)] g(2) ex_dealt_miss)
  show "map_option type (parseCombatLine seconds_date (''junk '' @ line_received))
          = Some ''damage_received''"
    using type_of_combat_line [OF ex_received(2) g(1), of seconds_date]
    by (simp add: g(2) ex_received ex_other_lines)
qed

subsection \<open>The order of the classification checks\<close>

text \<open>
  Claim C5. On a combat line, the three checks all run and each overwrites the type when
  its pattern matches, so the type of the event is that of the last matching check in
  source order: \<open>miss\<close> if the miss pattern matches, else \<open>damage_received\<close> if the
  damage-received pattern matches, else \<open>damage_dealt\<close> if the damage-dealt pattern
  matches, else \<open>unknown\<close>.
\<close>

theorem classification_precedence:
  assumes "js_match LOG_LINE_REGEX line = Some g" "group g 1 = Some ''combat''"
  shows "\<exists>ev. parseCombatLine mkDate line = Some ev \<and>
     type ev =
       (if js_match MISS_REGEX (text_of (group g 2)) \<noteq> None then ''miss''
        else if js_match DAMAGE_RECEIVED_REGEX (text_of (group g 2)) \<noteq> None
        then ''damage_received''
        else if js_match DAMAGE_DEALT_REGEX (text_of (group g 2)) \<noteq> None then ''damage_dealt''
        else ''unknown'')"
  by (simp add: parseCombatLine_combat [OF assms] extract_keeps type_check_miss
        type_check_damage_received type_check_damage_dealt)

text \<open>
  The theorem on a line that matches all three patterns, where the type is \<open>miss\<close>, and
  on a line that matches the damage-dealt and the damage-received pattern only, where it
  is \<open>damage_received\<close>.
\<close>

theorem classification_precedence_witness:
  "js_match LOG_LINE_REGEX line_all_three
     = Some [Some line_all_three, Some ''combat'', Some content_all_three]
   \<and> group [Some line_all_three, Some ''combat'', Some content_all_three] 1 = Some ''combat''
   \<and> js_match DAMAGE_DEALT_REGEX content_all_three \<noteq> None
   \<and> js_match DAMAGE_RECEIVED_REGEX content_all_three \<noteq> None
   \<and> js_match MISS_REGEX content_all_three \<noteq> None
   \<and> (\<exists>ev. parseCombatLine seconds_date line_all_three = Some ev \<and> type ev = ''miss'')
   \<and> js_match LOG_LINE_REGEX line_dealt_received
     = Some [Some line_dealt_received, Some ''combat'', Some content_dealt_received]
   \<and> group [Some line_dealt_received, Some ''combat'', Some content_dealt_received] 1
     = Some ''combat''
   \<and> js_match DAMAGE_DEALT_REGEX content_dealt_received \<noteq> None
   \<and> js_match DAMAGE_RECEIVED_REGEX content_dealt_received \<noteq> None
   \<and> js_match MISS_REGEX content_dealt_received = None
   \<and> (\<exists>ev. parseCombatLine seconds_date line_dealt_received = Some ev
          \<and> type ev = ''damage_received'')"
proof -
  have g1: "group [Some line_all_three, Some ''combat'', Some content_all_three] 1
              = Some ''combat''"
    and g2: "group [Some line_dealt_received, Some ''combat'', Some content_dealt_received] 1
              = Some ''combat''"
    by (simp_all add: group_def)
  show ?thesis
    using classification_precedence [OF ex_all_three(1) g1, of seconds_date]
      classification_precedence [OF ex_dealt_received(1) g2, of seconds_date]
    by (simp add: ex_all_three ex_dealt_received group_def text_of_def)
qed

subsection \<open>Fields left over from an earlier check\<close>

text \<open>
  Claim C9. A check writes only its own fields and clears nothing, so on every combat
  line each field of the event is that of the last matching check that writes it:
  \<open>damage\<close> is that of the damage-received check if its pattern matches, else that of
  the damage-dealt check if its pattern matches, else absent; \<open>target\<close> is that of the
  miss check if its pattern matches, else that of the damage-dealt check if its pattern
  matches, else absent; \<open>source\<close> is that of the damage-received check if its pattern
  matches, else absent; and the type is that of the last matching check. So a line that
  matches the damage-dealt and the miss pattern is a \<open>miss\<close> that still has the
  \<open>damage\<close> and whose \<open>target\<close> is the one of the miss check; a line that matches
  the damage-dealt and the damage-received pattern is a \<open>damage_received\<close> that still
  has the \<open>target\<close> of the damage-dealt check beside its \<open>source\<close>; and a line that
  matches the damage-received and the miss pattern is a \<open>miss\<close> that still has the
  \<open>damage\<close> and the \<open>source\<close>.
\<close>

theorem stale_fields:
  assumes "js_match LOG_LINE_REGEX line = Some g" "group g 1 = Some ''combat''"
  shows "\<exists>ev. parseCombatLine mkDate line = Some ev
     \<and> type ev =
         (if js_match MISS_REGEX (text_of (group g 2)) \<noteq> None then ''miss''
          else if js_match DAMAGE_RECEIVED_REGEX (text_of (group g 2)) \<noteq> None
          then ''damage_received''
          else if js_match DAMAGE_DEALT_REGEX (text_of (group g 2)) \<noteq> None
          then ''damage_dealt''
          else ''unknown'')
     \<and> damage ev =
         (case js_match DAMAGE_RECEIVED_REGEX (text_of (group g 2)) of
            Some dr \<Rightarrow> Some (parseInt (text_of (group dr 1)))
          | None \<Rightarrow>
              (case js_match DAMAGE_DEALT_REGEX (text_of (group g 2)) of
                 Some dd \<Rightarrow> Some (parseInt (text_of (group dd 1)))
               | None \<Rightarrow> None))
     \<and> target ev =
         (case js_match MISS_REGEX (text_of (group g 2)) of
            Some ms \<Rightarrow>
              Some (case group ms 1 of None \<Rightarrow> ''you''
                    | Some name \<Rightarrow> if name = [] then ''you'' else stripTags name)
          | None \<Rightarrow>
              (case js_match DAMAGE_DEALT_REGEX (text_of (group g 2)) of
                 Some dd \<Rightarrow> Some (stripTags (text_of (group dd 3)))
               | None \<Rightarrow> None))
     \<and> source ev =
         (case js_match DAMAGE_RECEIVED_REGEX (text_of (group g 2)) of
            Some dr \<Rightarrow> Some (stripTags (text_of (group dr 2)))
          | None \<Rightarrow> None)"
proof -
  let ?c = "text_of (group g 2)"
  let ?ev0 = "\<lparr> timestamp = parseTimestamp mkDate line, raw = line, type = ''unknown'',
                damage = None, target = None, source = None, weapon = None,
                hitQuality = None \<rparr>"
  let ?ev1 = "check_damage_dealt ?c ?ev0"
  let ?ev2 = "check_damage_received ?c ?ev1"
  let ?ev3 = "check_miss ?c ?ev2"
  have d1: "damage ?ev1 =
              (case js_match DAMAGE_DEALT_REGEX ?c of
                 Some dd \<Rightarrow> Some (parseInt (text_of (group dd 1))) | None \<Rightarrow> None)"
    and t1: "target ?ev1 =
              (case js_match DAMAGE_DEALT_REGEX ?c of
                 Some dd \<Rightarrow> Some (stripTags (text_of (group dd 3))) | None \<Rightarrow> None)"
    and s1: "source ?ev1 = None"
    by (simp_all add: check_damage_dealt_def split: option.splits)
  have d2: "damage ?ev2 =
              (case js_match DAMAGE_RECEIVED_REGEX ?c of
                 Some dr \<Rightarrow> Some (parseInt (text_of (group dr 1)))
               | None \<Rightarrow> damage ?ev1)"
    and t2: "target ?ev2 = target ?ev1"
    and s2: "source ?ev2 =
              (case js_match DAMAGE_RECEIVED_REGEX ?c of
                 Some dr \<Rightarrow> Some (stripTags (text_of (group dr 2)))
               | None \<Rightarrow> source ?ev1)"
    by (simp_all add: check_damage_received_def split: option.splits)
  have d3: "damage ?ev3 = damage ?ev2"
    and t3: "target ?ev3 =
              (case js_match MISS_REGEX ?c of
                 Some ms \<Rightarrow>
                   Some (case group ms 1 of None \<Rightarrow> ''you''
                         | Some name \<Rightarrow> if name = [] then ''you'' else stripTags name)
               | None \<Rightarrow> target ?ev2)"
    and s3: "source ?ev3 = source ?ev2"
    by (simp_all add: check_miss_def split: option.splits)
  show ?thesis
    unfolding parseCombatLine_combat [OF assms]
    by (simp add: extract_keeps type_check_miss type_check_damage_received
          type_check_damage_dealt d3 t3 s3 d2 t2 s2 d1 t1 s1 split: option.splits)
qed

text \<open>
  The theorem on three lines: one with damage-dealt and miss content is a \<open>miss\<close> with
  damage 12 and target \<open>you\<close> (not \<open>Bob\<close>); one with damage-dealt and damage-received
  content is a \<open>damage_received\<close> with target \<open>Bob\<close> and source \<open>Eve\<close>; one with
  damage-received and miss content is a \<open>miss\<close> with damage 12, source \<open>Eve\<close> and
  target \<open>you\<close>.
\<close>

theorem stale_fields_witness:
  "js_match LOG_LINE_REGEX line_dealt_miss
     = Some [Some line_dealt_miss, Some ''combat'', Some content_dealt_miss]
   \<and> group [Some line_dealt_miss, Some ''combat'', Some content_dealt_miss] 1 = Some ''combat''
   \<and> js_match DAMAGE_DEALT_REGEX content_dealt_miss \<noteq> None
   \<and> js_match DAMAGE_RECEIVED_REGEX content_dealt_miss = None
   \<and> js_match MISS_REGEX content_dealt_miss \<noteq> None
   \<and> (\<exists>ev. parseCombatLine seconds_date line_dealt_miss = Some ev
          \<and> type ev = ''miss'' \<and> damage ev = Some (Fin 12) \<and> target ev = Some ''you''
          \<and> source ev = None)
   \<and> js_match LOG_LINE_REGEX line_dealt_received
     = Some [Some line_dealt_received, Some ''combat'', Some content_dealt_received]
   \<and> group [Some line_dealt_received, Some ''combat'', Some content_dealt_received] 1
     = Some ''combat''
   \<and> js_match DAMAGE_DEALT_REGEX content_dealt_received \<noteq> None
   \<and> js_match DAMAGE_RECEIVED_REGEX content_dealt_received \<noteq> None
   \<and> js_match MISS_REGEX content_dealt_received = None
   \<and> (\<exists>ev. parseCombatLine seconds_date line_dealt_received = Some ev
          \<and> type ev = ''damage_received'' \<and> damage ev = Some (Fin 12)
          \<and> target ev = Some ''Bob'' \<and> source ev = Some ''Eve'')
   \<and> js_match LOG_LINE_REGEX line_received_miss
     = Some [Some line_received_miss, Some ''combat'', Some content_received_miss]
   \<and> group [Some line_received_miss, Some ''combat'', Some content_received_miss] 1
     = Some ''combat''
   \<and> js_match DAMAGE_DEALT_REGEX content_received_miss = None
   \<and> js_match DAMAGE_RECEIVED_REGEX content_received_miss \<noteq> None
   \<and> js_match MISS_REGEX content_received_miss \<noteq> None
   \<and> (\<exists>ev. parseCombatLine seconds_date line_received_miss = Some ev
          \<and> type ev = ''miss'' \<and> damage ev = Some (Fin 12)
          \<and> target ev = Some ''you'' \<and> source ev = Some ''Eve'')"
proof -
  have g: "group [Some l, Some ''combat'', Some c] 1 = Some ''combat''"
    "text_of (group [Some l, Some ''combat'', Some c] 2) = c" for l c :: string
    by (simp_all add: group_def text_of_def)
  have 1: "\<exists>ev. parseCombatLine seconds_date line_dealt_miss = Some ev
          \<and> type ev = ''miss'' \<and> damage ev = Some (Fin 12) \<and> target ev = Some ''you''
          \<and> source ev = None"
    using stale_fields [OF ex_dealt_miss(1) g(1), of seconds_date]
    by (simp add: g(2) ex_dealt_miss ex_values group_def text_of_def)
  have 2: "\<exists>ev. parseCombatLine seconds_date line_dealt_received = Some ev
          \<and> type ev = ''damage_received'' \<and> damage ev = Some (Fin 12)
          \<and> target ev = Some ''Bob'' \<and> source ev = Some ''Eve''"
    using stale_fields [OF ex_dealt_received(1) g(1), of seconds_date]
    by (simp add: g(2) ex_dealt_received ex_values group_def text_of_def)
  have 3: "\<exists>ev. parseCombatLine seconds_date line_received_miss = Some ev
          \<and> type ev = ''miss'' \<and> damage ev = Some (Fin 12)
          \<and> target ev = Some ''you'' \<and> source ev = Some ''Eve''"
    using stale_fields [OF ex_received_miss(1) g(1), of seconds_date]
    by (simp add: g(2) ex_received_miss ex_values group_def text_of_def)
  show ?thesis
    by (simp add: 1 2 3 group_def ex_dealt_miss ex_dealt_received ex_received_miss)
qed


subsection \<open>Lines without a bracketed block\<close>

text \<open>
  Claim C10. The line pattern starts with a bracketed block of digits, dots, colons and
  white space, which has to stand before the parenthesized channel type. A line in which
  no such block stands before a channel type is not an event: \<open>parseCombatLine\<close>
  returns null for it, whatever else it contains.
\<close>

theorem no_bracket_block_no_event:
  assumes "\<not> has_line_shape line"
  shows "parseCombatLine mkDate line = None"
proof (cases "js_match LOG_LINE_REGEX line")
  case None
  then show ?thesis by (rule parseCombatLine_needs_shape)
next
  case (Some g)
  from log_line_match_shape [OF this] obtain pre body ws w rest
    where "line = pre @ ''['' @ body @ '']'' @ ws @ ''('' @ w @ '')'' @ rest"
      and "body \<noteq> []" "list_all stamp_char body" "list_all is_space ws" "w \<noteq> []"
        "list_all is_word w"
    by blast
  then have "has_line_shape line"
    using shape_found by blast
  with assms show ?thesis by simp
qed

text \<open>
  The theorem on a line that reads \<open>(combat)\<close> followed by well-formed damage-received
  content, with no bracketed block: no event. The same content behind a timestamp is a
  \<open>damage_received\<close> event, and still is with other text in front of the timestamp:
  the pattern is not anchored, so the block need not start the line.
\<close>

theorem no_bracket_block_no_event_witness:
  "\<not> has_line_shape line_shapeless
   \<and> line_shapeless = ''(combat) '' @ content_received
   \<and> js_match DAMAGE_RECEIVED_REGEX content_received \<noteq> None
   \<and> parseCombatLine seconds_date line_shapeless = None
   \<and> has_line_shape line_received
   \<and> map_option type (parseCombatLine seconds_date line_received) = Some ''damage_received''
   \<and> has_line_shape (''junk '' @ line_received)
   \<and> map_option type (parseCombatLine seconds_date (''junk '' @ line_received))
       = Some ''damage_received''"
proof -
  have a: "\<not> has_line_shape line_shapeless"
    by (simp add: ex_other_lines)
  have b: "line_shapeless = ''(combat) '' @ content_received"
    by (simp add: line_shapeless_def)
  have c: "js_match DAMAGE_RECEIVED_REGEX content_received \<noteq> None"
    by (simp add: ex_other_lines)
  have d: "parseCombatLine seconds_date line_shapeless = None"
    using a by (rule no_bracket_block_no_event)
  have e: "has_line_shape line_received" "has_line_shape (''junk '' @ line_received)"
    by (simp_all add: ex_other_lines)
  show ?thesis
    by (rule conjI a b c d e ex_events)+
qed

subsection \<open>A whole text\<close>

lemma fold_push_line:
  "foldl (push_line mkDate) acc ls = acc @ List.map_filter (keep_event mkDate) ls"
  by (induction ls arbitrary: acc)
     (simp_all add: push_line_def keep_event_def List.map_filter_simps split: option.splits)

lemma keep_event_type:
  "keep_event mkDate line = Some ev \<Longrightarrow>
     type ev \<in> {''damage_dealt'', ''damage_received'', ''miss''}"
  using parseCombatLine_type [of mkDate line ev]
  by (auto simp: keep_event_def split: option.splits if_splits)

lemma map_filter_all:
  "(\<And>x y. f x = Some y \<Longrightarrow> P y) \<Longrightarrow> list_all P (List.map_filter f xs)"
  by (induction xs) (auto simp: List.map_filter_simps split: option.splits)

lemma split_acc_join:
  "concat (map (\<lambda>l. l @ [CHR 0x0A]) (split_acc cur s)) = rev cur @ s @ [CHR 0x0A]"
  by (induction s arbitrary: cur) simp_all

lemma split_acc_no_lf:
  "CHR 0x0A \<notin> set cur \<Longrightarrow> list_all (\<lambda>l. CHR 0x0A \<notin> set l) (split_acc cur s)"
  by (induction s arbitrary: cur) simp_all

text \<open>
  Claim C8. \<open>parseLogContent\<close> cuts the text at the line feeds (the lines, each followed
  by a line feed, give back the text followed by one, and no line contains a line feed),
  parses each line on its own and keeps, in the order of the lines, the events whose type
  is not \<open>unknown\<close>; every event returned has type \<open>damage_dealt\<close>, \<open>damage_received\<close>
  or \<open>miss\<close>. A line that does not match the line pattern, or whose channel type is not
  exactly \<open>combat\<close>, is no event: \<open>parseCombatLine\<close> returns null for it.
\<close>

theorem parseLogContent_lines:
  "parseLogContent mkDate content =
     List.map_filter
       (\<lambda>line. case parseCombatLine mkDate line of
                 None \<Rightarrow> None
               | Some ev \<Rightarrow> if type ev \<noteq> ''unknown'' then Some ev else None)
       (split_lines content)
   \<and> list_all (\<lambda>ev. type ev \<in> {''damage_dealt'', ''damage_received'', ''miss''})
        (parseLogContent mkDate content)
   \<and> concat (map (\<lambda>l. l @ [CHR 0x0A]) (split_lines content)) = content @ [CHR 0x0A]
   \<and> list_all (\<lambda>l. CHR 0x0A \<notin> set l) (split_lines content)
   \<and> (js_match LOG_LINE_REGEX line = None \<longrightarrow> parseCombatLine mkDate line = None)
   \<and> (\<forall>g. js_match LOG_LINE_REGEX line = Some g \<longrightarrow> group g 1 \<noteq> Some ''combat'' \<longrightarrow>
          parseCombatLine mkDate line = None)"
proof -
  have eq: "parseLogContent mkDate content
              = List.map_filter (keep_event mkDate) (split_lines content)"
    by (simp add: parseLogContent_def fold_push_line)
  have "keep_event mkDate = (\<lambda>line. case parseCombatLine mkDate line of
                 None \<Rightarrow> None
               | Some ev \<Rightarrow> if type ev \<noteq> ''unknown'' then Some ev else None)"
    by (rule ext) (simp add: keep_event_def)
  with eq have "parseLogContent mkDate content =
     List.map_filter
       (\<lambda>line. case parseCombatLine mkDate line of
                 None \<Rightarrow> None
               | Some ev \<Rightarrow> if type ev \<noteq> ''unknown'' then Some ev else None)
       (split_lines content)"
    by simp
  moreover have "list_all (\<lambda>ev. type ev \<in> {''damage_dealt'', ''damage_received'', ''miss''})
        (parseLogContent mkDate content)"
    unfolding eq by (rule map_filter_all) (rule keep_event_type)
  moreover have "concat (map (\<lambda>l. l @ [CHR 0x0A]) (split_lines content)) = content @ [CHR 0x0A]"
    by (simp add: split_lines_def split_acc_join)
  moreover have "list_all (\<lambda>l. CHR 0x0A \<notin> set l) (split_lines content)"
    by (simp add: split_lines_def split_acc_no_lf)
  moreover have "js_match LOG_LINE_REGEX line = None \<longrightarrow> parseCombatLine mkDate line = None"
    by (simp add: parseCombatLine_needs_shape)
  moreover have "\<forall>g. js_match LOG_LINE_REGEX line = Some g \<longrightarrow>
          group g 1 \<noteq> Some ''combat'' \<longrightarrow> parseCombatLine mkDate line = None"
    using parseCombatLine_not_combat by blast
  ultimately show ?thesis by blast
qed

text \<open>
  The theorem on a text of four lines: a line of the \<open>notify\<close> channel and a line with no
  bracketed block give no event, and the two combat lines give their events in order.
\<close>

theorem parseLogContent_lines_witness:
  "js_match LOG_LINE_REGEX line_shapeless = None
   \<and> parseCombatLine seconds_date line_shapeless = None
   \<and> js_match LOG_LINE_REGEX line_notify
       = Some [Some line_notify, Some ''notify'', Some content_received]
   \<and> group [Some line_notify, Some ''notify'', Some content_received] 1 \<noteq> Some ''combat''
   \<and> parseCombatLine seconds_date line_notify = None
   \<and> split_lines log_text = [line_notify, line_received, line_shapeless, line_dealt_miss]
   \<and> map type (parseLogContent seconds_date log_text) = [''damage_received'', ''miss'']"
proof -
  have g: "group [Some line_notify, Some ''notify'', Some content_received] 1 \<noteq> Some ''combat''"
    by (simp add: group_def)
  from parseLogContent_lines [of seconds_date log_text line_shapeless]
  have "js_match LOG_LINE_REGEX line_shapeless = None \<longrightarrow>
          parseCombatLine seconds_date line_shapeless = None"
    by blast
  then have a: "parseCombatLine seconds_date line_shapeless = None"
    by (simp add: ex_other_lines)
  from parseLogContent_lines [of seconds_date log_text line_notify]
  have "\<forall>g. js_match LOG_LINE_REGEX line_notify = Some g \<longrightarrow>
          group g 1 \<noteq> Some ''combat'' \<longrightarrow> parseCombatLine seconds_date line_notify = None"
    by blast
  then have b: "parseCombatLine seconds_date line_notify = None"
    using g by (simp add: ex_other_lines)
  from parseLogContent_lines [of seconds_date log_text line_notify]
  have "parseLogContent seconds_date log_text =
     List.map_filter
       (\<lambda>line. case parseCombatLine seconds_date line of
                 None \<Rightarrow> None
               | Some ev \<Rightarrow> if type ev \<noteq> ''unknown'' then Some ev else None)
       [line_notify, line_received, line_shapeless, line_dealt_miss]"
    by (simp only: ex_other_lines)
  moreover obtain e1 e2
    where "parseCombatLine seconds_date line_received = Some e1" "type e1 = ''damage_received''"
      and "parseCombatLine seconds_date line_dealt_miss = Some e2" "type e2 = ''miss''"
    using ex_events by auto
  ultimately have c: "map type (parseLogContent seconds_date log_text)
                        = [''damage_received'', ''miss'']"
    using a b by (simp add: List.map_filter_simps)
  show ?thesis
    using a b c g by (simp only: ex_other_lines simp_thms)
qed

end
